theory Spec2Isabelle
  imports Complex_Main "HOL-Library.Word" "HOL-Library.Log_Nat" "HOL-Library.Signed_Division"
    "HOL-Library.Monad_Syntax"
begin

unbundle bit_operations_syntax

section \<open>Machine types\<close>

type_synonym u8 = "8 word"
type_synonym u64 = "64 word"

text \<open>
  \<open>uint256\<close> is an array of 32 bytes. Index 31 is the most significant byte
  (\<open>CalculateShareDifficulty\<close> starts there), so the array is the little-endian
  image of a 256-bit number.
\<close>

type_synonym uint256 = "u8 list"

definition uint256_value :: "uint256 \<Rightarrow> int" where
  "uint256_value h = foldr (\<lambda>b acc. uint b + 256 * acc) h 0"

definition UINT64_MAX :: u64 where
  "UINT64_MAX = - 1"

section \<open>Share difficulty (pool.cpp, CalculateShareDifficulty)\<close>

text \<open>
  The inner loop \<open>for (int bit = 7; bit >= 0; bit--)\<close>: the argument \<open>Suc b\<close> stands
  for the iteration that tests bit \<open>b\<close>; the loop stops at the first set bit.
\<close>

fun leading_zero_bits :: "u8 \<Rightarrow> nat \<Rightarrow> nat" where
  "leading_zero_bits byte 0 = 0"
| "leading_zero_bits byte (Suc b) =
     (if byte AND push_bit b 1 = 0 then 1 + leading_zero_bits byte b else 0)"

text \<open>
  The outer loop \<open>for (size_t i = 0; i < 32; i++)\<close> reading \<open>hash.data()[31 - i]\<close>:
  the argument \<open>Suc n\<close> stands for the iteration that reads byte \<open>n = 31 - i\<close>.
\<close>

fun count_leading_zeros :: "uint256 \<Rightarrow> nat \<Rightarrow> nat" where
  "count_leading_zeros h 0 = 0"
| "count_leading_zeros h (Suc n) =
     (let byte = h ! n in
      if byte = 0 then 8 + count_leading_zeros h n
      else leading_zero_bits byte 8)"

definition CalculateShareDifficulty :: "uint256 \<Rightarrow> u64" where
  "CalculateShareDifficulty h =
     (let leading_zeros = count_leading_zeros h 32 in
      if leading_zeros < 32 then 1
      else
        let extra_zeros = leading_zeros - 32 in
        if extra_zeros > 0 \<and> extra_zeros \<ge> 48 then UINT64_MAX
        else max (push_bit extra_zeros (65536 :: u64)) 1)"

definition ValidateDifficulty :: "uint256 \<Rightarrow> u64 \<Rightarrow> bool" where
  "ValidateDifficulty h difficulty = (CalculateShareDifficulty h \<ge> difficulty)"

definition IsValidBlock :: "uint256 \<Rightarrow> u64 \<Rightarrow> bool" where
  "IsValidBlock h network_difficulty = (CalculateShareDifficulty h \<ge> network_difficulty)"

text \<open>
  The exact share difficulty in the words of the specification (section 4.3):
  \<open>truncate_u64(pool_diff1_target / uint256(hash))\<close>, where difficulty 1 is the
  target \<open>0x00000000FFFF\<close> followed by 26 zero bytes.
\<close>

definition pool_diff1_target :: int where
  "pool_diff1_target = 0xFFFF * 2 ^ 208"

definition truncate_u64 :: "int \<Rightarrow> u64" where
  "truncate_u64 n = word_of_int n"

definition spec_share_difficulty :: "uint256 \<Rightarrow> u64" where
  "spec_share_difficulty h = truncate_u64 (pool_diff1_target div uint256_value h)"

text \<open>Two hashes: \<open>2 ^ 223\<close> (exactly 32 leading zero bits) and the largest hash.\<close>

definition hash_2_223 :: uint256 where
  "hash_2_223 = replicate 27 0 @ [0x80] @ replicate 4 0"

definition hash_max :: uint256 where
  "hash_max = replicate 32 0xFF"

section \<open>Binary64 arithmetic\<close>

text \<open>
  The C++ \<open>double\<close> is IEEE 754 binary64. A finite double is modelled by the rational
  number it denotes; every operation computes the exact rational result and rounds it to
  the nearest double, ties to the even significand (\<open>fl\<close>). \<open>binade x\<close> is the exponent
  \<open>e\<close> with \<open>2 ^ e \<le> \<bar>x\<bar> < 2 ^ (e + 1)\<close>; doubles in that binade are the multiples of
  \<open>2 ^ (e - 52)\<close>, and below \<open>2 ^ - 1022\<close> (subnormal numbers) of \<open>2 ^ - 1074\<close>.

  The operations \<open>double_mul\<close> to \<open>double_sub\<close> yield \<open>None\<close> when their result is
  not a finite double (an overflow, a division by zero), and so does a conversion to
  \<open>uint64_t\<close> of a value outside its range, which C++ leaves undefined. Doubles that
  may be infinite or a NaN have the type \<open>float64\<close> below.
\<close>

type_synonym double = rat

definition binade :: "rat \<Rightarrow> int" where
  "binade x =
     (let (p, q) = quotient_of \<bar>x\<bar>; d = bitlen p - bitlen q
      in if power_int 2 d \<le> \<bar>x\<bar> then d else d - 1)"

definition round_half_even :: "rat \<Rightarrow> int" where
  "round_half_even r =
     (let f = \<lfloor>r\<rfloor>; d = r - of_int f
      in if d < 1 / 2 then f
         else if 1 / 2 < d then f + 1
         else if even f then f else f + 1)"

definition fl :: "rat \<Rightarrow> double" where
  "fl x =
     (if x = 0 then 0
      else
        let e = max (binade x) (- 1022);
            quantum = power_int 2 (e - 52)
        in of_int (round_half_even (x / quantum)) * quantum)"

text \<open>A rounded value is a finite double when it is below \<open>2 ^ 1024\<close> in magnitude.\<close>

definition finite_result :: "rat \<Rightarrow> double option" where
  "finite_result x = (let y = fl x in if y = 0 \<or> binade y < 1024 then Some y else None)"

definition double_mul :: "double \<Rightarrow> double \<Rightarrow> double option" where
  "double_mul a b = finite_result (a * b)"

definition double_div :: "double \<Rightarrow> double \<Rightarrow> double option" where
  "double_div a b = (if b = 0 then None else finite_result (a / b))"

definition double_add :: "double \<Rightarrow> double \<Rightarrow> double option" where
  "double_add a b = finite_result (a + b)"

definition double_sub :: "double \<Rightarrow> double \<Rightarrow> double option" where
  "double_sub a b = finite_result (a - b)"

text \<open>\<open>static_cast<double>\<close> of a \<open>uint64_t\<close>, of an \<open>int64_t\<close> and of a \<open>size_t\<close>.\<close>

definition double_of_u64 :: "u64 \<Rightarrow> double" where
  "double_of_u64 w = fl (of_int (uint w))"

definition double_of_i64 :: "int \<Rightarrow> double" where
  "double_of_i64 i = fl (of_int i)"

definition double_of_size :: "nat \<Rightarrow> double" where
  "double_of_size n = fl (of_nat n)"

text \<open>
  \<open>static_cast<uint64_t>\<close> of a double truncates towards zero; it is defined only when
  the truncated value is a \<open>uint64_t\<close>.
\<close>

definition u64_of_double :: "double \<Rightarrow> u64 option" where
  "u64_of_double x =
     (if - 1 < x \<and> x < 2 ^ 64
      then Some (word_of_int (if 0 \<le> x then \<lfloor>x\<rfloor> else \<lceil>x\<rceil>))
      else None)"

text \<open>
  A double that need not be finite: a finite double (\<open>Finite 0\<close> is the positive zero),
  the negative zero, an infinity or a NaN. \<open>round_float64\<close> rounds an exact result: one
  too large in magnitude becomes an infinity, a negative one that rounds to zero becomes
  the negative zero.
\<close>

datatype float64 = Finite double | NegZero | PosInf | NegInf | NaN

definition round_float64 :: "rat \<Rightarrow> float64" where
  "round_float64 x =
     (let y = fl x
      in if y = 0 then (if x < 0 then NegZero else Finite 0)
         else if binade y < 1024 then Finite y
         else if 0 < y then PosInf else NegInf)"

text \<open>
  \<open>a / b\<close>, \<open>a - b\<close> and \<open>a + b\<close> for a finite double \<open>a\<close> that is not the negative
  zero: a division by a zero gives an infinity, or a NaN when \<open>a\<close> is zero too.
\<close>

definition float64_div :: "double \<Rightarrow> float64 \<Rightarrow> float64" where
  "float64_div a b =
     (case b of
        NaN \<Rightarrow> NaN
      | PosInf \<Rightarrow> (if a < 0 then NegZero else Finite 0)
      | NegInf \<Rightarrow> (if a < 0 then Finite 0 else NegZero)
      | NegZero \<Rightarrow> (if a = 0 then NaN else if 0 < a then NegInf else PosInf)
      | Finite y \<Rightarrow>
          if y = 0 then (if a = 0 then NaN else if 0 < a then PosInf else NegInf)
          else if a = 0 then (if y < 0 then NegZero else Finite 0)
          else round_float64 (a / y))"

definition float64_sub :: "double \<Rightarrow> float64 \<Rightarrow> float64" where
  "float64_sub a b =
     (case b of
        NaN \<Rightarrow> NaN
      | PosInf \<Rightarrow> NegInf
      | NegInf \<Rightarrow> PosInf
      | NegZero \<Rightarrow> Finite a
      | Finite y \<Rightarrow> round_float64 (a - y))"

definition float64_add :: "double \<Rightarrow> float64 \<Rightarrow> float64" where
  "float64_add a b =
     (case b of
        NaN \<Rightarrow> NaN
      | PosInf \<Rightarrow> PosInf
      | NegInf \<Rightarrow> NegInf
      | NegZero \<Rightarrow> Finite a
      | Finite y \<Rightarrow> round_float64 (a + y))"

text \<open>
  The comparisons \<open>a < b\<close> and \<open>a <= b\<close>: false when an operand is a NaN; the two zeros
  are equal.
\<close>

definition float64_value :: "float64 \<Rightarrow> rat" where
  "float64_value a = (case a of Finite x \<Rightarrow> x | _ \<Rightarrow> 0)"

fun float64_less :: "float64 \<Rightarrow> float64 \<Rightarrow> bool" where
  "float64_less NaN b = False"
| "float64_less a NaN = False"
| "float64_less PosInf b = False"
| "float64_less a NegInf = False"
| "float64_less NegInf b = True"
| "float64_less a PosInf = True"
| "float64_less a b = (float64_value a < float64_value b)"

fun float64_less_eq :: "float64 \<Rightarrow> float64 \<Rightarrow> bool" where
  "float64_less_eq NaN b = False"
| "float64_less_eq a NaN = False"
| "float64_less_eq NegInf b = True"
| "float64_less_eq a PosInf = True"
| "float64_less_eq PosInf b = False"
| "float64_less_eq a NegInf = False"
| "float64_less_eq a b = (float64_value a \<le> float64_value b)"

section \<open>Associative containers\<close>

text \<open>
  A \<open>std::map\<close> is a list of key-value pairs in ascending key order, the order in which
  the code iterates over it. \<open>map_put\<close> is the assignment \<open>m[k] = v\<close>; a lookup is
  \<open>map_of\<close>.
\<close>

type_synonym ('k, 'v) std_map = "('k \<times> 'v) list"

fun map_put :: "'k::linorder \<Rightarrow> 'v \<Rightarrow> ('k, 'v) std_map \<Rightarrow> ('k, 'v) std_map" where
  "map_put k v [] = [(k, v)]"
| "map_put k v ((k', v') # rest) =
     (if k = k' then (k, v) # rest
      else if k < k' then (k, v) # (k', v') # rest
      else (k', v') # map_put k v rest)"

section \<open>Shares (pool.h)\<close>

text \<open>
  A \<open>system_clock::time_point\<close> is its count of clock ticks since the epoch; the clock
  ticks in nanoseconds. \<open>duration_cast<seconds>\<close> truncates towards zero.
\<close>

type_synonym time_point = int

definition ticks_per_second :: int where
  "ticks_per_second = 1000000000"

definition duration_cast_seconds :: "int \<Rightarrow> int" where
  "duration_cast_seconds ticks = ticks sdiv ticks_per_second"

record Share =
  share_id :: u64
  miner_id :: u64
  worker_id :: u64
  worker_name :: string
  job_id :: uint256
  nonce :: uint256
  share_hash :: uint256
  difficulty :: u64
  is_block :: bool
  timestamp :: time_point
  valid :: bool
  error_msg :: string

section \<open>Payout calculators (pool.cpp, PayoutCalculator)\<close>

definition CalculateFee :: "u64 \<Rightarrow> double \<Rightarrow> u64 option" where
  "CalculateFee amount fee_percent =
     do {
       scaled \<leftarrow> double_mul (double_of_u64 amount) fee_percent;
       fee \<leftarrow> double_div scaled 100;
       u64_of_double fee
     }"

text \<open>
  The counting loop of \<open>CalculatePPLNS\<close> and \<open>CalculateProportional\<close>: for a valid
  share, \<open>miner_shares[shares[i].miner_id]++; total++\<close> (\<open>n_total\<close> is the code's \<open>total\<close>).
\<close>

definition count_share :: "Share \<Rightarrow> (u64, u64) std_map \<times> u64 \<Rightarrow> (u64, u64) std_map \<times> u64" where
  "count_share s acc =
     (case acc of (miner_shares, n_total) \<Rightarrow>
        if valid s
        then (map_put (Share.miner_id s)
                ((case map_of miner_shares (Share.miner_id s) of None \<Rightarrow> 0 | Some c \<Rightarrow> c) + 1)
                miner_shares,
              n_total + 1)
        else (miner_shares, n_total))"

definition count_shares :: "Share list \<Rightarrow> (u64, u64) std_map \<times> u64" where
  "count_shares xs = fold count_share xs ([], 0)"

text \<open>The final loop: \<open>payouts[miner_id] = (reward * count) / total\<close>.\<close>

definition pay_out :: "u64 \<Rightarrow> u64 \<Rightarrow> (u64, u64) std_map \<Rightarrow> (u64, u64) std_map" where
  "pay_out reward n_total miner_shares =
     map (\<lambda>(miner, n). (miner, (reward * n) div n_total)) miner_shares"

definition CalculatePPLNS ::
    "Share list \<Rightarrow> nat \<Rightarrow> u64 \<Rightarrow> double \<Rightarrow> (u64, u64) std_map option" where
  "CalculatePPLNS shares n_shares block_reward pool_fee =
     do {
       fee \<leftarrow> CalculateFee block_reward pool_fee;
       let reward = block_reward - fee;
           start = (if length shares > n_shares then length shares - n_shares else 0);
           (miner_shares, n_total) = count_shares (drop start shares)
       in Some (if n_total = 0 then [] else pay_out reward n_total miner_shares)
     }"

definition CalculateProportional ::
    "Share list \<Rightarrow> u64 \<Rightarrow> double \<Rightarrow> (u64, u64) std_map option" where
  "CalculateProportional round_shares block_reward pool_fee =
     do {
       fee \<leftarrow> CalculateFee block_reward pool_fee;
       let reward = block_reward - fee;
           (miner_shares, n_total) = count_shares round_shares
       in Some (if n_total = 0 then [] else pay_out reward n_total miner_shares)
     }"

text \<open>
  The quantities the PPLNS rule is stated in: the last \<open>n\<close> shares, the number of valid
  shares of miner \<open>m\<close> among some shares (\<open>count[m]\<close>), and the number of valid shares
  among them (\<open>total\<close>, the sum of the counts over the miners, see
  \<open>share_total_is_sum\<close>). \<open>sum_values\<close> adds up the amounts of a payout map.
\<close>

definition last_n :: "nat \<Rightarrow> 'a list \<Rightarrow> 'a list" where
  "last_n n xs = drop (length xs - n) xs"

definition share_count :: "Share list \<Rightarrow> u64 \<Rightarrow> nat" where
  "share_count xs m = length (filter (\<lambda>s. valid s \<and> Share.miner_id s = m) xs)"

definition share_total :: "Share list \<Rightarrow> nat" where
  "share_total xs = length (filter valid xs)"

definition sum_values :: "(u64, u64) std_map \<Rightarrow> nat" where
  "sum_values ms = sum_list (map (\<lambda>kv. unat (snd kv)) ms)"

text \<open>Concrete shares: a valid share of miner \<open>m\<close>, and the shares of scenario 6.\<close>

definition share_of :: "u64 \<Rightarrow> Share" where
  "share_of m =
     \<lparr>share_id = 0, Share.miner_id = m, Share.worker_id = 0, Share.worker_name = [],
      Share.job_id = [], nonce = [], share_hash = [], Share.difficulty = 1, is_block = False,
      timestamp = 0, valid = True, error_msg = []\<rparr>"

definition scenario_shares :: "Share list" where
  "scenario_shares = replicate 300 (share_of 1) @ replicate 200 (share_of 2) @ replicate 500 (share_of 3)"

definition four_shares :: "Share list" where
  "four_shares = replicate 4 (share_of 1)"

section \<open>Miners, workers, work and payments (pool.h)\<close>

text \<open>
  The other structures of \<open>pool.h\<close>. Fields of the same name in several structures are
  told apart by the structure's name (\<open>Share.miner_id\<close>, \<open>Worker.miner_id\<close>). Block
  headers, transactions, network addresses and the hashrate statistics, which are
  \<open>double\<close> values that no decision reads, are left out.
\<close>

record PoolConfig =
  min_difficulty :: u64
  initial_difficulty :: u64
  target_share_time :: float64
  vardiff_retarget_time :: float64
  vardiff_variance :: float64
  pplns_window :: u64
  pool_fee_percent :: double
  min_payout :: u64
  payout_interval :: u64
  max_workers_per_miner :: u64
  max_miners :: u64
  ban_on_invalid_share :: bool
  max_invalid_shares :: u64
  ban_duration :: int

record Work =
  job_id :: uint256
  height :: u64
  difficulty :: u64
  created_at :: time_point
  clean_jobs :: bool

record Payment =
  payment_id :: u64
  miner_id :: u64
  payout_address :: string
  amount :: u64
  tx_hash :: uint256
  created_at :: time_point
  confirmed_at :: time_point
  is_confirmed :: bool
  status :: string

record Worker =
  worker_id :: u64
  miner_id :: u64
  worker_name :: string
  shares_submitted :: u64
  shares_accepted :: u64
  shares_rejected :: u64
  shares_stale :: u64
  blocks_found :: u64
  current_difficulty :: u64
  last_share_time :: time_point
  recent_shares :: "time_point list"
  connected_at :: time_point
  last_activity :: time_point
  is_active :: bool

record Miner =
  miner_id :: u64
  username :: string
  payout_address :: string
  email :: string
  workers :: "(u64, Worker) std_map"
  total_shares_submitted :: u64
  total_shares_accepted :: u64
  total_shares_rejected :: u64
  total_blocks_found :: u64
  unpaid_balance :: u64
  paid_balance :: u64
  estimated_earnings :: u64
  last_payout :: time_point
  invalid_share_count :: u64
  is_banned :: bool
  ban_expires :: time_point
  registered_at :: time_point
  last_seen :: time_point

record RoundStatistics =
  round_id :: u64
  started_at :: time_point
  ended_at :: time_point
  shares_submitted :: u64
  block_height :: u64
  block_hash :: uint256
  block_reward :: u64
  miner_shares :: "(u64, u64) std_map"
  is_complete :: bool

record PoolStatistics =
  shares_this_round :: u64
  total_shares :: u64
  blocks_found :: u64
  blocks_pending :: u64
  last_block_found :: time_point

section \<open>Variable difficulty (pool.cpp, VarDiffManager)\<close>

text \<open>
  The members \<open>target_share_time_\<close>, \<open>retarget_time_\<close> and \<open>variance_\<close> (a name cannot
  end in an underscore here). The constructor stores any three doubles.
\<close>

record VarDiffManager =
  vd_target_share_time :: float64
  vd_retarget_time :: float64
  vd_variance :: float64

text \<open>\<open>static_cast<uint64_t>(worker.current_difficulty * factor)\<close>.\<close>

definition scale_difficulty :: "u64 \<Rightarrow> double \<Rightarrow> u64 option" where
  "scale_difficulty d factor =
     do { scaled \<leftarrow> double_mul (double_of_u64 d) factor; u64_of_double scaled }"

text \<open>
  \<open>CalculateDifficulty\<close>. \<open>avg_time\<close> is a quotient of two converted integers, the
  divisor at least 2, hence a finite double; \<open>ratio\<close> is infinite or a NaN when the
  target share time is zero. The result is \<open>None\<close> only when the product with 1.5 is
  outside \<open>uint64_t\<close>, where the conversion is undefined.
\<close>

definition CalculateDifficulty :: "VarDiffManager \<Rightarrow> Worker \<Rightarrow> u64 option" where
  "CalculateDifficulty vd worker =
     (if length (recent_shares worker) < 3 then Some (current_difficulty worker)
      else
        let total_duration =
              duration_cast_seconds (last (recent_shares worker) - hd (recent_shares worker));
            avg_time = fl (double_of_i64 total_duration
                             / double_of_size (length (recent_shares worker) - 1));
            ratio = float64_div avg_time (vd_target_share_time vd)
        in do {
             new_diff \<leftarrow>
               (if float64_less ratio (float64_sub 1 (vd_variance vd))
                then scale_difficulty (current_difficulty worker) (3 / 2)
                else if float64_less (float64_add 1 (vd_variance vd)) ratio
                then scale_difficulty (current_difficulty worker) (3 / 4)
                else Some (current_difficulty worker));
             Some (max 1000 new_diff)
           })"

text \<open>
  \<open>ShouldAdjust\<close> compares the whole seconds since \<open>last_share_time\<close>, converted to
  \<open>double\<close>, with the retarget time.
\<close>

definition ShouldAdjust :: "VarDiffManager \<Rightarrow> Worker \<Rightarrow> time_point \<Rightarrow> bool" where
  "ShouldAdjust vd worker now =
     (float64_less_eq (vd_retarget_time vd)
        (Finite (double_of_i64 (duration_cast_seconds (now - last_share_time worker))))
      \<and> 3 \<le> length (recent_shares worker))"

text \<open>The constructor call in \<open>MiningPoolServer::Impl\<close>.\<close>

definition vardiff_of_config :: "PoolConfig \<Rightarrow> VarDiffManager" where
  "vardiff_of_config config =
     \<lparr>vd_target_share_time = target_share_time config,
      vd_retarget_time = vardiff_retarget_time config,
      vd_variance = vardiff_variance config\<rparr>"

text \<open>
  The adjustment rule in the words of the specification (section 4.4), in exact
  arithmetic: times 1.5 rounded up below the band, times 0.75 rounded down above it,
  unchanged inside, then clamped to \<open>[min_difficulty, max_difficulty]\<close>.
\<close>

definition spec_new_difficulty :: "rat \<Rightarrow> rat \<Rightarrow> int \<Rightarrow> int \<Rightarrow> int \<Rightarrow> int" where
  "spec_new_difficulty ratio var old_diff min_diff max_diff =
     max min_diff (min max_diff
       (if ratio < 1 - var then \<lceil>(of_int old_diff :: rat) * (3 / 2)\<rceil>
        else if 1 + var < ratio then \<lfloor>(of_int old_diff :: rat) * (3 / 4)\<rfloor>
        else old_diff))"

text \<open>
  Concrete inputs: the configuration of scenario 5 (target 15 s, variance 0.3, that is
  the double nearest to \<open>3 / 10\<close>) with \<open>min_difficulty\<close> 1, a manager with the
  target of the difficulty tests in \<open>pool_tests.cpp\<close> (10 s), and a worker at a given
  difficulty whose \<open>n\<close> shares arrived \<open>gap\<close> seconds apart.
\<close>

definition scenario_config :: PoolConfig where
  "scenario_config =
     \<lparr>min_difficulty = 1, initial_difficulty = 1024, target_share_time = Finite 15,
      vardiff_retarget_time = Finite 60, vardiff_variance = Finite (fl (3 / 10)),
      pplns_window = 1000, pool_fee_percent = 1, min_payout = 100, payout_interval = 3600,
      max_workers_per_miner = 10, max_miners = 100, ban_on_invalid_share = True,
      max_invalid_shares = 20, ban_duration = 600\<rparr>"

definition test_vardiff :: VarDiffManager where
  "test_vardiff =
     \<lparr>vd_target_share_time = Finite 10, vd_retarget_time = Finite 60,
      vd_variance = Finite (fl (3 / 10))\<rparr>"

definition paced_worker :: "u64 \<Rightarrow> nat \<Rightarrow> int \<Rightarrow> Worker" where
  "paced_worker d n gap =
     \<lparr>worker_id = 1, Worker.miner_id = 1, worker_name = ''rig1'', shares_submitted = 0,
      shares_accepted = 0, shares_rejected = 0, shares_stale = 0, blocks_found = 0,
      current_difficulty = d, last_share_time = 0,
      recent_shares = map (\<lambda>i. int i * gap * ticks_per_second) [0..<n],
      connected_at = 0, last_activity = 0, is_active = True\<rparr>"

section \<open>The pool server (MiningPoolServer::Impl)\<close>

text \<open>
  The members of \<open>Impl\<close> in \<open>pool.cpp\<close>, without their trailing underscore;
  \<open>workers_\<close> and \<open>recent_shares_\<close> are \<open>pool_workers\<close> and \<open>pool_recent_shares\<close>.
  Every operation runs alone, on one thread; the mutexes it holds are an argument of the
  functions that lock (see share processing). The chain, the clock and the callbacks are
  outside: an operation takes the current time as an argument.
\<close>

record Impl =
  config :: PoolConfig
  miners :: "(u64, Miner) std_map"
  username_to_miner_id :: "(string, u64) std_map"
  pool_workers :: "(u64, Worker) std_map"
  worker_to_miner :: "(u64, u64) std_map"
  next_miner_id :: u64
  next_worker_id :: u64
  pool_recent_shares :: "Share list"
  next_share_id :: u64
  current_round :: RoundStatistics
  round_history :: "RoundStatistics list"
  next_round_id :: u64
  payment_history :: "Payment list"
  next_payment_id :: u64
  current_work :: "Work option"
  vardiff :: VarDiffManager
  stats :: PoolStatistics

section \<open>Payouts (ProcessPayouts in pool.cpp and in mining_pool_server.cpp)\<close>

definition zero_hash :: uint256 where
  "zero_hash = replicate 32 0"

text \<open>The block "Create payment record".\<close>

definition new_payment :: "u64 \<Rightarrow> u64 \<Rightarrow> Miner \<Rightarrow> time_point \<Rightarrow> Payment" where
  "new_payment pid mid miner now =
     \<lparr>payment_id = pid, Payment.miner_id = mid,
      Payment.payout_address = Miner.payout_address miner,
      amount = unpaid_balance miner, tx_hash = zero_hash, Payment.created_at = now,
      confirmed_at = 0, is_confirmed = False, status = ''pending''\<rparr>"

text \<open>
  The block "Update miner balances", the one place where the two files differ:
  \<open>mining_pool_server.cpp\<close> also adds the amount to \<open>paid_balance\<close>.
\<close>

definition settle_pool_cpp :: "Miner \<Rightarrow> time_point \<Rightarrow> Miner" where
  "settle_pool_cpp miner now = miner\<lparr>unpaid_balance := 0, last_payout := now\<rparr>"

definition settle_mining_pool_server_cpp :: "Miner \<Rightarrow> time_point \<Rightarrow> Miner" where
  "settle_mining_pool_server_cpp miner now =
     miner\<lparr>paid_balance := paid_balance miner + unpaid_balance miner,
           unpaid_balance := 0, last_payout := now\<rparr>"

text \<open>
  The loop over \<open>impl_->miners_\<close>. It returns the miners, the payments created
  (\<open>new_payments\<close>) and the next payment id. \<open>time_since_last\<close> is a signed count of
  whole seconds, compared with \<open>static_cast<int64_t>(payout_interval)\<close>.
\<close>

fun payout_sweep ::
    "(Miner \<Rightarrow> time_point \<Rightarrow> Miner) \<Rightarrow> PoolConfig \<Rightarrow> time_point \<Rightarrow> (u64, Miner) std_map \<Rightarrow> u64
      \<Rightarrow> (u64, Miner) std_map \<times> Payment list \<times> u64" where
  "payout_sweep settle cfg now [] pid = ([], [], pid)"
| "payout_sweep settle cfg now ((mid, miner) # rest) pid =
     (if unpaid_balance miner < min_payout cfg then
        (case payout_sweep settle cfg now rest pid of
           (ms, ps, pid') \<Rightarrow> ((mid, miner) # ms, ps, pid'))
      else if duration_cast_seconds (now - last_payout miner) < sint (payout_interval cfg) then
        (case payout_sweep settle cfg now rest pid of
           (ms, ps, pid') \<Rightarrow> ((mid, miner) # ms, ps, pid'))
      else
        (case payout_sweep settle cfg now rest (pid + 1) of
           (ms, ps, pid') \<Rightarrow>
             ((mid, settle miner now) # ms, new_payment pid mid miner now # ps, pid')))"

definition ProcessPayouts_with ::
    "(Miner \<Rightarrow> time_point \<Rightarrow> Miner) \<Rightarrow> time_point \<Rightarrow> Impl \<Rightarrow> Payment list \<times> Impl" where
  "ProcessPayouts_with settle now s =
     (case payout_sweep settle (config s) now (miners s) (next_payment_id s) of
        (ms, new_payments, pid) \<Rightarrow>
          (new_payments,
           s\<lparr>miners := ms, payment_history := payment_history s @ new_payments,
             next_payment_id := pid\<rparr>))"

definition ProcessPayouts_pool_cpp :: "time_point \<Rightarrow> Impl \<Rightarrow> Payment list \<times> Impl" where
  "ProcessPayouts_pool_cpp = ProcessPayouts_with settle_pool_cpp"

definition ProcessPayouts_mining_pool_server_cpp ::
    "time_point \<Rightarrow> Impl \<Rightarrow> Payment list \<times> Impl" where
  "ProcessPayouts_mining_pool_server_cpp = ProcessPayouts_with settle_mining_pool_server_cpp"

text \<open>
  The sum of the confirmed payments of a miner, in the words of the specification
  (section 8).
\<close>

definition confirmed_total :: "Payment list \<Rightarrow> u64 \<Rightarrow> int" where
  "confirmed_total ps m =
     sum_list (map (\<lambda>p. uint (amount p))
       (filter (\<lambda>p. status p = ''confirmed'' \<and> Payment.miner_id p = m) ps))"

text \<open>
  Concrete inputs: a miner with a given unpaid balance and last payout, and a pool with
  that one miner, a minimum payout of 100 and a given payout interval.
\<close>

definition miner_with :: "u64 \<Rightarrow> time_point \<Rightarrow> Miner" where
  "miner_with unpaid paid_at =
     \<lparr>Miner.miner_id = 1, username = ''alice'', Miner.payout_address = ''addr1'', email = [],
      workers = [], total_shares_submitted = 0, total_shares_accepted = 0,
      total_shares_rejected = 0, total_blocks_found = 0, unpaid_balance = unpaid,
      paid_balance = 0, estimated_earnings = 0, last_payout = paid_at,
      invalid_share_count = 0, is_banned = False, ban_expires = 0, registered_at = 0,
      last_seen = 0\<rparr>"

definition empty_round :: RoundStatistics where
  "empty_round =
     \<lparr>round_id = 1, started_at = 0, ended_at = 0, RoundStatistics.shares_submitted = 0,
      block_height = 0, block_hash = zero_hash, block_reward = 0, miner_shares = [],
      is_complete = False\<rparr>"

definition empty_stats :: PoolStatistics where
  "empty_stats =
     \<lparr>shares_this_round = 0, total_shares = 0, PoolStatistics.blocks_found = 0,
      blocks_pending = 0, last_block_found = 0\<rparr>"

definition pool_with :: "u64 \<Rightarrow> Miner \<Rightarrow> Impl" where
  "pool_with interval miner =
     \<lparr>config = scenario_config\<lparr>payout_interval := interval\<rparr>,
      miners = [(1, miner)], username_to_miner_id = [(''alice'', 1)], pool_workers = [],
      worker_to_miner = [], next_miner_id = 2, next_worker_id = 1, pool_recent_shares = [],
      next_share_id = 1, current_round = empty_round, round_history = [],
      next_round_id = 2, payment_history = [], next_payment_id = 1, current_work = None,
      vardiff = vardiff_of_config scenario_config, stats = empty_stats\<rparr>"

section \<open>Share processing (pool.cpp)\<close>

text \<open>\<open>Result<T>\<close>: a value or an error message.\<close>

datatype 'a Result = Ok 'a | Error string

text \<open>
  What an operation reads from outside the pool: the clock (one reading for the whole
  operation), the value the fresh \<open>Share\<close> holds in its field \<open>is_block\<close>, which
  \<open>SubmitShare\<close> does not initialise, the network difficulty reported by the chain, the
  outcome of \<open>AddBlock\<close> (an error message, or none), the hash of the assembled block and
  the outcome of \<open>GetBlockTemplate\<close>: the work that \<open>CreateWork(true)\<close> builds from the
  template, or the error message of the chain.
\<close>

record Env =
  clock_now :: time_point
  indeterminate_is_block :: bool
  chain_difficulty :: u64
  add_block_error :: "string option"
  assembled_block_hash :: uint256
  next_work :: "Work Result"

text \<open>
  The two mutexes of \<open>Impl\<close> that share processing locks, \<open>mutex_\<close> and
  \<open>work_mutex_\<close>. Both are \<open>std::mutex\<close>, which is not recursive: a thread that locks a
  mutex it already holds never gets it. A call therefore either returns a value and leaves
  the pool in a state, or it stops in a state: blocked for ever in such a lock, by an
  exception (\<open>std::map::at\<close> without an entry), or in a conversion that C++ leaves
  undefined.

  A function that locks, or calls one that does, and is called by other functions of the
  pool takes the set \<open>held\<close> of the mutexes its thread holds at the call.
  \<open>lock_guard\<close> is the declaration of a \<open>std::lock_guard\<close>; the calls in the rest of
  the body are made with the mutex added to \<open>held\<close>.
\<close>

datatype mutex_id = mutex | work_mutex

datatype stop = Blocked | Thrown | Undefined

datatype 'a Call = Returns 'a Impl | Stops stop Impl

definition and_then :: "'a Call \<Rightarrow> ('a \<Rightarrow> Impl \<Rightarrow> 'b Call) \<Rightarrow> 'b Call" where
  "and_then c f = (case c of Returns x s \<Rightarrow> f x s | Stops why s \<Rightarrow> Stops why s)"

definition lock_guard :: "mutex_id \<Rightarrow> mutex_id set \<Rightarrow> Impl \<Rightarrow> 'a Call \<Rightarrow> 'a Call" where
  "lock_guard m held s body = (if m \<in> held then Stops Blocked s else body)"

definition ValidateWork :: "Share \<Rightarrow> Work \<Rightarrow> bool" where
  "ValidateWork share work = (Share.job_id share = Work.job_id work)"

definition ValidateTimestamp :: "Share \<Rightarrow> Work \<Rightarrow> bool" where
  "ValidateTimestamp share work =
     (let diff = duration_cast_seconds (timestamp share - Work.created_at work)
      in 0 \<le> diff \<and> diff < 300)"

fun IsDuplicateShare :: "Share \<Rightarrow> Share list \<Rightarrow> bool" where
  "IsDuplicateShare share [] = False"
| "IsDuplicateShare share (s # rest) =
     (if nonce s = nonce share \<and> Share.job_id s = Share.job_id share then True
      else IsDuplicateShare share rest)"

text \<open>
  \<open>ValidateShare\<close>. It locks \<open>work_mutex_\<close>, which its only caller \<open>SubmitShare\<close> does
  not hold, and changes nothing.
\<close>

definition ValidateShare :: "Impl \<Rightarrow> Share \<Rightarrow> bool Result" where
  "ValidateShare s share =
     (case current_work s of
        None \<Rightarrow> Error ''No current work available''
      | Some work \<Rightarrow>
          if \<not> ValidateDifficulty (share_hash share) (Share.difficulty share)
          then Error ''Share does not meet difficulty requirement''
          else if \<not> ValidateWork share work then Error ''Share is for stale work''
          else if \<not> ValidateTimestamp share work then Error ''Share timestamp invalid''
          else if IsDuplicateShare share (pool_recent_shares s) then Error ''Duplicate share''
          else Ok True)"

text \<open>
  \<open>GetMinerShares\<close>: the last \<open>count\<close> recent shares of a miner, in their order.
\<close>

definition GetMinerShares :: "mutex_id set \<Rightarrow> u64 \<Rightarrow> nat \<Rightarrow> Impl \<Rightarrow> Share list Call" where
  "GetMinerShares held mid count s =
     lock_guard mutex held s
       (Returns
          (rev (take count (filter (\<lambda>share. Share.miner_id share = mid)
                  (rev (pool_recent_shares s)))))
          s)"

text \<open>
  \<open>CalculateWorkerHashrate\<close>. The hashrate it computes from the shares is a \<open>double\<close>
  that no decision reads and is left out; what remains is whether the call returns.
\<close>

definition CalculateWorkerHashrate :: "mutex_id set \<Rightarrow> u64 \<Rightarrow> Impl \<Rightarrow> unit Call" where
  "CalculateWorkerHashrate held wid s =
     (case map_of (worker_to_miner s) wid of
        None \<Rightarrow> Stops Thrown s
      | Some mid \<Rightarrow> and_then (GetMinerShares held mid 100 s) (\<lambda>shares s'. Returns () s'))"

text \<open>\<open>AdjustWorkerDifficulty\<close>; \<open>SendSetDifficulty\<close> is a stub without effect.\<close>

definition AdjustWorkerDifficulty :: "mutex_id set \<Rightarrow> u64 \<Rightarrow> Impl \<Rightarrow> unit Call" where
  "AdjustWorkerDifficulty held wid s =
     lock_guard mutex held s
       (case map_of (pool_workers s) wid of
          None \<Rightarrow> Returns () s
        | Some worker \<Rightarrow>
            (case CalculateDifficulty (vardiff s) worker of
               None \<Rightarrow> Stops Undefined s
             | Some new_diff \<Rightarrow>
                 Returns ()
                   (if new_diff \<noteq> current_difficulty worker
                    then s\<lparr>pool_workers :=
                            map_put wid (worker\<lparr>current_difficulty := new_diff\<rparr>) (pool_workers s)\<rparr>
                    else s)))"

definition BanMiner :: "mutex_id set \<Rightarrow> Env \<Rightarrow> u64 \<Rightarrow> int \<Rightarrow> Impl \<Rightarrow> unit Call" where
  "BanMiner held env mid duration s =
     lock_guard mutex held s
       (Returns ()
          (case map_of (miners s) mid of
             None \<Rightarrow> s
           | Some miner \<Rightarrow>
               s\<lparr>miners :=
                   map_put mid
                     (miner\<lparr>is_banned := True,
                            ban_expires := clock_now env + duration * ticks_per_second\<rparr>)
                     (miners s)\<rparr>))"

definition CheckInvalidShares :: "mutex_id set \<Rightarrow> Env \<Rightarrow> u64 \<Rightarrow> Impl \<Rightarrow> unit Call" where
  "CheckInvalidShares held env mid s =
     (if \<not> ban_on_invalid_share (config s) then Returns () s
      else
        case map_of (miners s) mid of
          None \<Rightarrow> Returns () s
        | Some miner \<Rightarrow>
            if max_invalid_shares (config s) \<le> invalid_share_count miner
            then BanMiner held env mid (ban_duration (config s)) s
            else Returns () s)"

text \<open>
  The blocks of \<open>ProcessValidShare\<close>: the counters and the timestamps of the worker,
  the miner, and the round with the pool statistics.
\<close>

definition credit_worker :: "Share \<Rightarrow> Worker \<Rightarrow> Worker" where
  "credit_worker share worker =
     (let pushed = Worker.recent_shares worker @ [timestamp share]
      in worker
           \<lparr>Worker.shares_submitted := Worker.shares_submitted worker + 1,
            shares_accepted := shares_accepted worker + 1,
            Worker.recent_shares := (if 100 < length pushed then tl pushed else pushed)\<rparr>)"

definition credit_miner :: "Env \<Rightarrow> Share \<Rightarrow> Impl \<Rightarrow> Impl" where
  "credit_miner env share s =
     (case map_of (miners s) (Share.miner_id share) of
        None \<Rightarrow> s
      | Some miner \<Rightarrow>
          s\<lparr>miners :=
              map_put (Share.miner_id share)
                (miner\<lparr>total_shares_submitted := total_shares_submitted miner + 1,
                       total_shares_accepted := total_shares_accepted miner + 1,
                       last_seen := clock_now env,
                       invalid_share_count := 0\<rparr>)
                (miners s)\<rparr>)"

definition credit_round :: "Share \<Rightarrow> Impl \<Rightarrow> Impl" where
  "credit_round share s =
     s\<lparr>current_round := (current_round s)
          \<lparr>RoundStatistics.shares_submitted :=
             RoundStatistics.shares_submitted (current_round s) + 1,
           miner_shares :=
             map_put (Share.miner_id share)
               ((case map_of (miner_shares (current_round s)) (Share.miner_id share) of
                   None \<Rightarrow> 0 | Some c \<Rightarrow> c) + 1)
               (miner_shares (current_round s))\<rparr>,
       stats := (stats s)
          \<lparr>shares_this_round := shares_this_round (stats s) + 1,
           total_shares := total_shares (stats s) + 1\<rparr>\<rparr>"

definition ProcessValidShare :: "mutex_id set \<Rightarrow> Env \<Rightarrow> Share \<Rightarrow> Impl \<Rightarrow> unit Call" where
  "ProcessValidShare held env share s =
     and_then
       (case map_of (pool_workers s) (Share.worker_id share) of
          None \<Rightarrow> Returns () s
        | Some worker \<Rightarrow>
            and_then
              (CalculateWorkerHashrate held (Share.worker_id share)
                 (s\<lparr>pool_workers :=
                      map_put (Share.worker_id share) (credit_worker share worker)
                        (pool_workers s)\<rparr>))
              (\<lambda>hashrate s'.
                 if ShouldAdjust (vardiff s') (credit_worker share worker) (clock_now env)
                 then AdjustWorkerDifficulty held (Share.worker_id share) s'
                 else Returns () s'))
       (\<lambda>u s'. Returns () (credit_round share (credit_miner env share s')))"

text \<open>
  \<open>CreateWork\<close> and \<open>UpdateWork\<close>; the broadcast to the Stratum server is outside.
\<close>

definition CreateWork :: "mutex_id set \<Rightarrow> Env \<Rightarrow> Impl \<Rightarrow> Work Result Call" where
  "CreateWork held env s =
     lock_guard work_mutex held s
       (case next_work env of
          Error e \<Rightarrow> Returns (Error (''Failed to get block template: '' @ e)) s
        | Ok work \<Rightarrow> Returns (Ok work) (s\<lparr>current_work := Some work\<rparr>))"

definition UpdateWork :: "mutex_id set \<Rightarrow> Env \<Rightarrow> Impl \<Rightarrow> unit Result Call" where
  "UpdateWork held env s =
     and_then (CreateWork held env s)
       (\<lambda>work_result s'.
          case work_result of
            Error e \<Rightarrow> Returns (Error (''Failed to create new work: '' @ e)) s'
          | Ok work \<Rightarrow> Returns (Ok ()) s')"

text \<open>
  \<open>ProcessBlockFound\<close>: the block is handed to the chain; on success the finder is
  credited, the round is closed with the fixed reward of 50 coins and a new one is opened,
  and \<open>UpdateWork\<close> is called while \<open>work_mutex_\<close> is held. The block found callback is
  outside.
\<close>

definition ProcessBlockFound :: "mutex_id set \<Rightarrow> Env \<Rightarrow> Share \<Rightarrow> Impl \<Rightarrow> unit Result Call" where
  "ProcessBlockFound held env share s =
     lock_guard work_mutex held s
       (case current_work s of
          None \<Rightarrow> Returns (Error ''No current work available'') s
        | Some work \<Rightarrow>
            (case add_block_error env of
               Some e \<Rightarrow> Returns (Error (''Failed to submit block: '' @ e)) s
             | None \<Rightarrow>
                 let s1 = (case map_of (pool_workers s) (Share.worker_id share) of
                             None \<Rightarrow> s
                           | Some worker \<Rightarrow>
                               s\<lparr>pool_workers :=
                                   map_put (Share.worker_id share)
                                     (worker\<lparr>Worker.blocks_found := Worker.blocks_found worker + 1\<rparr>)
                                     (pool_workers s)\<rparr>);
                     s2 = (case map_of (miners s1) (Share.miner_id share) of
                             None \<Rightarrow> s1
                           | Some miner \<Rightarrow>
                               s1\<lparr>miners :=
                                    map_put (Share.miner_id share)
                                      (miner\<lparr>total_blocks_found := total_blocks_found miner + 1\<rparr>)
                                      (miners s1)\<rparr>);
                     closed = (current_round s2)
                       \<lparr>ended_at := clock_now env, block_height := height work,
                        block_hash := assembled_block_hash env, block_reward := 50 * 100000000,
                        is_complete := True\<rparr>;
                     s3 = s2
                       \<lparr>stats := (stats s2)
                          \<lparr>PoolStatistics.blocks_found := PoolStatistics.blocks_found (stats s2) + 1,
                           blocks_pending := blocks_pending (stats s2) + 1,
                           last_block_found := clock_now env\<rparr>,
                        round_history := round_history s2 @ [closed],
                        current_round :=
                          \<lparr>round_id = next_round_id s2, started_at = clock_now env, ended_at = 0,
                           RoundStatistics.shares_submitted = 0, block_height = 0,
                           block_hash = zero_hash, block_reward = 0, miner_shares = [],
                           is_complete = False\<rparr>,
                        next_round_id := next_round_id s2 + 1\<rparr>
                 in and_then (UpdateWork (insert work_mutex held) env s3)
                      (\<lambda>update_result s4. Returns (Ok ()) s4)))"

text \<open>"Add to recent shares" and "Keep only last 10000 shares in memory".\<close>

definition store_share :: "Share \<Rightarrow> Impl \<Rightarrow> Impl" where
  "store_share share s =
     (let pushed = pool_recent_shares s @ [share]
      in s\<lparr>pool_recent_shares := (if 10000 < length pushed then drop 1000 pushed else pushed)\<rparr>)"

text \<open>
  The statistics of the rejection branch of \<open>SubmitShare\<close>, updated through the
  iterators of the worker and of the miner found before.
\<close>

definition count_rejection :: "u64 \<Rightarrow> Worker \<Rightarrow> u64 \<Rightarrow> Miner \<Rightarrow> Impl \<Rightarrow> Impl" where
  "count_rejection wid worker mid miner s =
     s\<lparr>pool_workers :=
         map_put wid (worker\<lparr>shares_rejected := shares_rejected worker + 1\<rparr>) (pool_workers s),
       miners :=
         map_put mid
           (miner\<lparr>total_shares_rejected := total_shares_rejected miner + 1,
                  invalid_share_count := invalid_share_count miner + 1\<rparr>)
           (miners s)\<rparr>"

text \<open>
  \<open>impl_->worker_to_miner_[worker_id]\<close>: the miner of the worker, 0 for a worker without
  an entry, which the lookup then inserts.
\<close>

definition miner_of_worker :: "Impl \<Rightarrow> u64 \<Rightarrow> u64" where
  "miner_of_worker s wid = (case map_of (worker_to_miner s) wid of None \<Rightarrow> 0 | Some m \<Rightarrow> m)"

definition touch_worker_to_miner :: "u64 \<Rightarrow> Impl \<Rightarrow> Impl" where
  "touch_worker_to_miner wid s =
     (case map_of (worker_to_miner s) wid of
        None \<Rightarrow> s\<lparr>worker_to_miner := map_put wid 0 (worker_to_miner s)\<rparr>
      | Some m \<Rightarrow> s)"

text \<open>The block "Create share".\<close>

definition new_share ::
    "Env \<Rightarrow> Impl \<Rightarrow> u64 \<Rightarrow> Worker \<Rightarrow> uint256 \<Rightarrow> uint256 \<Rightarrow> uint256 \<Rightarrow> Share" where
  "new_share env s wid worker jid nonce_arg hash =
     \<lparr>share_id = next_share_id s, Share.miner_id = miner_of_worker s wid,
      Share.worker_id = wid, Share.worker_name = Worker.worker_name worker,
      Share.job_id = jid, nonce = nonce_arg, share_hash = hash,
      Share.difficulty = current_difficulty worker,
      is_block = indeterminate_is_block env,
      timestamp = clock_now env, valid = False, error_msg = []\<rparr>"

text \<open>
  \<open>SubmitShare\<close>. It is called by a thread of the Stratum server, which holds no mutex
  of the pool; it locks \<open>mutex_\<close> on its first line and holds it to its return, so
  \<open>ProcessValidShare\<close>, \<open>CheckInvalidShares\<close> and \<open>ProcessBlockFound\<close> run with
  \<open>mutex_\<close> held.
\<close>

definition SubmitShare ::
    "Env \<Rightarrow> u64 \<Rightarrow> uint256 \<Rightarrow> uint256 \<Rightarrow> uint256 \<Rightarrow> Impl \<Rightarrow> unit Result Call" where
  "SubmitShare env wid jid nonce_arg hash s =
     (case map_of (pool_workers s) wid of
        None \<Rightarrow> Returns (Error ''Worker not found'') s
      | Some worker \<Rightarrow>
          let mid = miner_of_worker s wid;
              s0 = touch_worker_to_miner wid s
          in case map_of (miners s0) mid of
               None \<Rightarrow> Returns (Error ''Miner not found'') s0
             | Some miner \<Rightarrow>
                 let share = new_share env s wid worker jid nonce_arg hash;
                     s1 = s0\<lparr>next_share_id := next_share_id s0 + 1\<rparr>
                 in case ValidateShare s1 share of
                      Error e \<Rightarrow>
                        and_then
                          (CheckInvalidShares {mutex} env mid
                             (count_rejection wid worker mid miner s1))
                          (\<lambda>u s2. Returns (Error (''Share rejected: '' @ e)) s2)
                    | Ok v \<Rightarrow>
                        if v then
                          and_then (ProcessValidShare {mutex} env (share\<lparr>valid := v\<rparr>) s1)
                            (\<lambda>u s2.
                               if IsValidBlock hash (chain_difficulty env) then
                                 and_then
                                   (ProcessBlockFound {mutex} env
                                      (share\<lparr>valid := v, is_block := True\<rparr>) s2)
                                   (\<lambda>block_result s3.
                                      case block_result of
                                        Error e \<Rightarrow>
                                          Returns
                                            (Error (''Share accepted but block processing failed: ''
                                                      @ e))
                                            s3
                                      | Ok u' \<Rightarrow>
                                          Returns (Ok ())
                                            (store_share (share\<lparr>valid := v, is_block := True\<rparr>) s3))
                               else Returns (Ok ()) (store_share (share\<lparr>valid := v\<rparr>) s2))
                        else Returns (Ok ()) (store_share (share\<lparr>valid := v\<rparr>) s1))"

section \<open>Share validation in mining_pool_server.cpp\<close>

text \<open>
  \<open>ValidateShare\<close> of \<open>mining_pool_server.cpp\<close>, which takes the network difficulty
  from the current work and sets \<open>is_block\<close> of the share it is given. It reads the
  current work only; it returns its result and the share.
\<close>

definition ValidateShare_mining_pool_server_cpp ::
    "Work option \<Rightarrow> Share \<Rightarrow> bool Result \<times> Share" where
  "ValidateShare_mining_pool_server_cpp work share =
     (if \<not> ValidateDifficulty (share_hash share) (Share.difficulty share)
      then (Error ''Share does not meet difficulty requirement'', share)
      else
        (Ok True,
         case work of
           None \<Rightarrow> share
         | Some w \<Rightarrow>
             if IsValidBlock (share_hash share) (Work.difficulty w)
             then share\<lparr>is_block := True\<rparr>
             else share))"

section \<open>The Stratum reply to a submission (stratum_server.cpp)\<close>





section \<open>Concrete pools and submissions\<close>

text \<open>The invalid share count and the ban state of a miner in a pool.\<close>

definition invalid_count :: "Impl \<Rightarrow> u64 \<Rightarrow> nat" where
  "invalid_count s m =
     (case map_of (miners s) m of None \<Rightarrow> 0 | Some miner \<Rightarrow> unat (invalid_share_count miner))"

definition ban_state :: "Impl \<Rightarrow> u64 \<Rightarrow> (bool \<times> time_point) option" where
  "ban_state s m = map_option (\<lambda>miner. (is_banned miner, ban_expires miner)) (map_of (miners s) m)"

text \<open>What a worker and a miner have been credited with: shares submitted and accepted.\<close>

definition worker_credit :: "Impl \<Rightarrow> u64 \<Rightarrow> (u64 \<times> u64) option" where
  "worker_credit s wid =
     map_option (\<lambda>w. (Worker.shares_submitted w, shares_accepted w)) (map_of (pool_workers s) wid)"

definition miner_credit :: "Impl \<Rightarrow> u64 \<Rightarrow> (u64 \<times> u64) option" where
  "miner_credit s mid =
     map_option (\<lambda>m. (total_shares_submitted m, total_shares_accepted m)) (map_of (miners s) mid)"

text \<open>
  A job, a pool with the miner 1 and its worker 1 at a given difficulty, working on that
  job, with given recent shares; an environment at a given time and network difficulty in
  which the chain accepts blocks and has no further template; a recent share of the job.
\<close>

definition job_1 :: uint256 where
  "job_1 = replicate 32 1"


definition nonce_7 :: uint256 where
  "nonce_7 = 7 # replicate 31 0"

definition work_1 :: Work where
  "work_1 = \<lparr>Work.job_id = job_1, height = 10, Work.difficulty = 1, Work.created_at = 0,
             clean_jobs = False\<rparr>"

definition mining_pool :: "u64 \<Rightarrow> Share list \<Rightarrow> Impl" where
  "mining_pool d shares =
     (pool_with 3600 (miner_with 0 0))
       \<lparr>pool_workers := [(1, paced_worker d 0 0)], worker_to_miner := [(1, 1)],
        next_worker_id := 2, pool_recent_shares := shares, current_work := Some work_1\<rparr>"

definition env_at :: "int \<Rightarrow> u64 \<Rightarrow> Env" where
  "env_at seconds network_diff =
     \<lparr>clock_now = seconds * ticks_per_second, indeterminate_is_block = False,
      chain_difficulty = network_diff, add_block_error = None,
      assembled_block_hash = zero_hash, next_work = Error ''no template''\<rparr>"


text \<open>
  The share that \<open>SubmitShare\<close> of \<open>mining_pool_server.cpp\<close> creates for worker 1 at a
  given difficulty and hash, with \<open>is_block\<close> false.
\<close>

definition submitted_share :: "u64 \<Rightarrow> uint256 \<Rightarrow> Share" where
  "submitted_share d hash =
     \<lparr>share_id = 1, Share.miner_id = 1, Share.worker_id = 1, Share.worker_name = ''rig1'',
      Share.job_id = job_1, nonce = nonce_7, share_hash = hash, Share.difficulty = d,
      is_block = False, timestamp = ticks_per_second, valid = False, error_msg = []\<rparr>"

text \<open>
  Modelled from the spec: the network target of a job. Share processing never sees a
  target, the chain reports a difficulty; by the glossary, difficulty \<open>d\<close> scales the
  difficulty 1 target by \<open>1 / d\<close>.
\<close>

definition network_target :: "u64 \<Rightarrow> int" where
  "network_target d = pool_diff1_target div uint d"

text \<open>
  What a call leaves behind: the value it returned, if any, the state of the pool, and
  why it stopped, if it did.
\<close>

definition returned :: "'a Call \<Rightarrow> 'a option" where
  "returned c = (case c of Returns x s \<Rightarrow> Some x | Stops why s \<Rightarrow> None)"

definition state_left :: "'a Call \<Rightarrow> Impl" where
  "state_left c = (case c of Returns x s \<Rightarrow> s | Stops why s \<Rightarrow> s)"

definition stopped :: "'a Call \<Rightarrow> stop option" where
  "stopped c = (case c of Returns x s \<Rightarrow> None | Stops why s \<Rightarrow> Some why)"

text \<open>
  The pool with worker 1 at difficulty 2 after a share of worker 1 below that difficulty
  has been rejected; a pool that bans after 2 invalid shares, and that pool after such a
  rejection.
\<close>

definition once_rejected :: Impl where
  "once_rejected =
     state_left (SubmitShare (env_at 1 1000) 1 job_1 nonce_7 hash_max (mining_pool 2 []))"

definition strict_pool :: Impl where
  "strict_pool = (mining_pool 2 [])\<lparr>config := scenario_config\<lparr>max_invalid_shares := 2\<rparr>\<rparr>"

definition strict_once_rejected :: Impl where
  "strict_once_rejected =
     state_left (SubmitShare (env_at 1 1000) 1 job_1 nonce_7 hash_max strict_pool)"

section \<open>Share difficulty: results\<close>

lemma uint256_value_hash_2_223: "uint256_value hash_2_223 = 2 ^ 223"
  by code_simp

lemma uint256_value_hash_max: "uint256_value hash_max = 2 ^ 256 - 1"
  by code_simp

text \<open>
  C1. The claim: the difficulty returned by \<open>CalculateShareDifficulty\<close> never exceeds
  the exact quotient \<open>truncate_u64(pool_diff1_target / uint256(hash))\<close>. On the hash
  \<open>2 ^ 223\<close> the exact difficulty is 1 and the code returns 65536; on the largest hash
  the exact difficulty is 0 and the code returns 1.
\<close>

theorem CalculateShareDifficulty_overcredits:
  "length hash_2_223 = 32
   \<and> CalculateShareDifficulty hash_2_223 = 65536
   \<and> spec_share_difficulty hash_2_223 = 1
   \<and> length hash_max = 32
   \<and> CalculateShareDifficulty hash_max = 1
   \<and> spec_share_difficulty hash_max = 0"
  by code_simp

section \<open>Payout calculators: results\<close>

lemma map_of_map_put: "map_of (map_put k v al) = (map_of al)(k \<mapsto> v)"
  by (induction al) (auto simp: fun_eq_iff)

lemma count_share_pair:
  "count_share s (ms, t) =
     (if valid s
      then (map_put (Share.miner_id s)
              ((case map_of ms (Share.miner_id s) of None \<Rightarrow> 0 | Some c \<Rightarrow> c) + 1) ms, t + 1)
      else (ms, t))"
  by (simp add: count_share_def)

lemma fold_count_share_lookup:
  "map_of (fst (fold count_share xs (ms, t))) m =
     (if share_count xs m = 0 then map_of ms m
      else Some ((case map_of ms m of None \<Rightarrow> 0 | Some c \<Rightarrow> c) + of_nat (share_count xs m)))"
proof (induction xs arbitrary: ms t)
  case Nil
  then show ?case by (simp add: share_count_def)
next
  case (Cons s xs)
  have sc: "share_count (s # xs) m =
      (if valid s \<and> Share.miner_id s = m then Suc (share_count xs m) else share_count xs m)"
    by (simp add: share_count_def)
  show ?case
    by (simp add: count_share_pair Cons.IH map_of_map_put sc split: option.splits)
qed

lemma fold_count_share_total:
  "snd (fold count_share xs (ms, t)) = t + of_nat (share_total xs)"
proof (induction xs arbitrary: ms t)
  case Nil
  then show ?case by (simp add: share_total_def)
next
  case (Cons s xs)
  have st: "share_total (s # xs) = (if valid s then Suc (share_total xs) else share_total xs)"
    by (simp add: share_total_def)
  show ?case
    by (simp add: count_share_pair Cons.IH st)
qed

lemma keys_map_put: "fst ` set (map_put k v ms) = insert k (fst ` set ms)"
proof (induction ms)
  case Nil
  then show ?case by simp
next
  case (Cons a ms)
  obtain k' v' where a: "a = (k', v')" by (cases a)
  show ?case unfolding a using Cons.IH by (simp add: insert_commute)
qed

lemma sorted_map_put:
  "sorted_wrt (<) (map fst ms) \<Longrightarrow> sorted_wrt (<) (map fst (map_put k v ms))"
proof (induction ms)
  case Nil
  then show ?case by simp
next
  case (Cons a ms)
  obtain k' v' where a: "a = (k', v')" by (cases a)
  have tl: "sorted_wrt (<) (map fst ms)" and hd: "\<forall>x\<in>fst ` set ms. k' < x"
    using Cons.prems unfolding a by auto
  show ?case
  proof (cases "k = k'")
    case True
    then show ?thesis using Cons.prems unfolding a by simp
  next
    case False
    show ?thesis
    proof (cases "k < k'")
      case True
      then have "\<forall>x\<in>fst ` set ms. k < x" using hd by auto
      then show ?thesis using True False tl hd unfolding a by auto
    next
      case ge: False
      then have "k' < k" using False by simp
      then have "\<forall>x\<in>fst ` set (map_put k v ms). k' < x"
        using hd by (simp add: keys_map_put)
      then show ?thesis using ge False Cons.IH [OF tl] unfolding a by auto
    qed
  qed
qed

lemma map_of_sorted_head:
  fixes k :: "'k::linorder"
  assumes "sorted_wrt (<) (map fst ((k', v') # ms))" and "k < k'"
  shows "map_of ((k', v') # ms) k = None"
proof -
  have "\<forall>x\<in>fst ` set ms. k' < x" using assms(1) by auto
  have "k \<notin> fst ` set ms"
  proof
    assume "k \<in> fst ` set ms"
    then have "k' < k" using \<open>\<forall>x\<in>fst ` set ms. k' < x\<close> by blast
    then show False using assms(2) by auto
  qed
  then have "map_of ms k = None" by (simp add: map_of_eq_None_iff)
  then show ?thesis using assms(2) by simp
qed

lemma sum_values_map_put:
  "sorted_wrt (<) (map fst ms) \<Longrightarrow>
   sum_values (map_put k v ms) + (case map_of ms k of None \<Rightarrow> 0 | Some c \<Rightarrow> unat c) = sum_values ms + unat v"
proof (induction ms)
  case Nil
  then show ?case by (simp add: sum_values_def)
next
  case (Cons a ms)
  obtain k' v' where a: "a = (k', v')" by (cases a)
  show ?case
  proof (cases "k = k'")
    case True
    then show ?thesis unfolding a by (simp add: sum_values_def)
  next
    case False
    show ?thesis
    proof (cases "k < k'")
      case True
      have "map_of ((k', v') # ms) k = None"
        using Cons.prems True unfolding a by (rule map_of_sorted_head)
      then show ?thesis
        using True False unfolding a by (simp add: sum_values_def)
    next
      case ge: False
      have "sorted_wrt (<) (map fst ms)" using Cons.prems by simp
      from Cons.IH [OF this] show ?thesis
        using ge False unfolding a by (simp add: sum_values_def)
    qed
  qed
qed

lemma fold_count_share_sum_values:
  "sorted_wrt (<) (map fst ms) \<Longrightarrow> sum_values ms = unat t \<Longrightarrow> unat t + length xs < 2 ^ 64 \<Longrightarrow>
   sorted_wrt (<) (map fst (fst (fold count_share xs (ms, t))))
   \<and> sum_values (fst (fold count_share xs (ms, t))) = unat (snd (fold count_share xs (ms, t)))"
proof (induction xs arbitrary: ms t)
  case Nil
  then show ?case by simp
next
  case (Cons s xs)
  show ?case
  proof (cases "valid s")
    case False
    then show ?thesis using Cons.IH [of ms t] Cons.prems by (simp add: count_share_pair)
  next
    case True
    define k where "k = Share.miner_id s"
    define c where "c = (case map_of ms k of None \<Rightarrow> (0::u64) | Some c \<Rightarrow> c)"
    have c_le: "unat c \<le> sum_values ms"
    proof (cases "map_of ms k")
      case None
      then show ?thesis by (simp add: c_def)
    next
      case (Some c')
      then have "(k, c') \<in> set ms" by (rule map_of_SomeD)
      then have "unat c' \<in> set (map (\<lambda>kv. unat (snd kv)) ms)" by force
      then have "unat c' \<le> sum_values ms"
        unfolding sum_values_def by (simp add: member_le_sum_list)
      then show ?thesis using Some by (simp add: c_def)
    qed
    have t1: "unat (t + 1) = unat t + 1"
      using Cons.prems(3) by (simp add: unat_word_ariths)
    have c1: "unat (c + 1) = unat c + 1"
      using Cons.prems(2,3) c_le by (simp add: unat_word_ariths)
    have old: "(case map_of ms k of None \<Rightarrow> 0 | Some c \<Rightarrow> unat c) = unat c"
      by (simp add: c_def split: option.splits)
    have "sum_values (map_put k (c + 1) ms) + unat c = sum_values ms + unat (c + 1)"
      using sum_values_map_put [OF Cons.prems(1), of k "c + 1"] old by simp
    then have tal: "sum_values (map_put k (c + 1) ms) = unat (t + 1)"
      using c1 t1 Cons.prems(2) by simp
    have srt: "sorted_wrt (<) (map fst (map_put k (c + 1) ms))"
      using Cons.prems(1) by (rule sorted_map_put)
    have len: "unat (t + 1) + length xs < 2 ^ 64"
      using t1 Cons.prems(3) by simp
    from Cons.IH [OF srt tal len] show ?thesis
      using True by (simp add: count_share_pair k_def c_def)
  qed
qed

lemma div_sum_le:
  fixes a T :: nat
  shows "sum_list (map (\<lambda>c. (a * c) div T) cs) \<le> (a * sum_list cs) div T"
proof (induction cs)
  case Nil
  then show ?case by simp
next
  case (Cons c cs)
  have "(a * c) div T + (a * sum_list cs) div T \<le> (a * c + a * sum_list cs) div T"
    by (metis div_add1_eq le_add1)
  then show ?case using Cons.IH by (simp add: distrib_left)
qed

lemma pay_out_sum:
  assumes "sum_values ms = unat t" and "t \<noteq> 0"
  shows "sum_values (pay_out r t ms) \<le> unat r"
proof -
  have step: "unat ((r * c) div t) \<le> (unat r * unat c) div unat t" for c
  proof -
    have "unat (r * c) \<le> unat r * unat c" by (simp add: unat_word_ariths)
    then show ?thesis by (simp add: unat_div div_le_mono)
  qed
  have "sum_values (pay_out r t ms) = sum_list (map (\<lambda>kv. unat ((r * snd kv) div t)) ms)"
    by (simp add: sum_values_def pay_out_def comp_def case_prod_beta)
  also have "\<dots> \<le> sum_list (map (\<lambda>kv. (unat r * unat (snd kv)) div unat t) ms)"
    by (rule sum_list_mono) (rule step)
  also have "\<dots> = sum_list (map (\<lambda>c. (unat r * c) div unat t) (map (\<lambda>kv. unat (snd kv)) ms))"
    by (simp add: comp_def)
  also have "\<dots> \<le> (unat r * sum_values ms) div unat t"
    unfolding sum_values_def by (rule div_sum_le)
  also have "\<dots> = unat r"
    using assms by (simp add: unat_eq_zero)
  finally show ?thesis .
qed

lemma share_total_is_sum:
  "share_total xs = (\<Sum>m \<in> Share.miner_id ` set (filter valid xs). share_count xs m)"
proof -
  define ys where "ys = map Share.miner_id (filter valid xs)"
  have cnt: "share_count xs m = count_list ys m" for m
    unfolding share_count_def ys_def
    by (induction xs) auto
  have "share_total xs = length ys" by (simp add: share_total_def ys_def)
  also have "\<dots> = sum (count_list ys) (set ys)"
    by (rule sum_count_set [symmetric]) auto
  also have "set ys = Share.miner_id ` set (filter valid xs)" by (simp add: ys_def)
  finally show ?thesis by (simp add: cnt)
qed

lemma share_count_le_total: "share_count xs m \<le> share_total xs"
  unfolding share_count_def share_total_def
  by (induction xs) auto

lemma share_total_le_length: "share_total xs \<le> length xs"
  by (simp add: share_total_def)

lemma count_shares_result:
  assumes "length xs < 2 ^ 64"
  shows "snd (count_shares xs) = of_nat (share_total xs)"
    and "map_of (fst (count_shares xs)) m =
           (if share_count xs m = 0 then None else Some (of_nat (share_count xs m)))"
    and "sum_values (fst (count_shares xs)) = share_total xs"
proof -
  show t: "snd (count_shares xs) = of_nat (share_total xs)"
    by (simp add: count_shares_def fold_count_share_total)
  show "map_of (fst (count_shares xs)) m =
           (if share_count xs m = 0 then None else Some (of_nat (share_count xs m)))"
    by (simp add: count_shares_def fold_count_share_lookup)
  have "share_total xs < 2 ^ 64"
    using assms share_total_le_length [of xs] by simp
  then have "unat (of_nat (share_total xs) :: u64) = share_total xs"
    by (simp add: unat_of_nat)
  moreover have "sum_values (fst (count_shares xs)) = unat (snd (count_shares xs))"
    unfolding count_shares_def
    using fold_count_share_sum_values [of "[]" 0 xs] assms by (simp add: sum_values_def)
  ultimately show "sum_values (fst (count_shares xs)) = share_total xs"
    using t by simp
qed

lemma pay_out_lookup:
  "map_of (pay_out r t ms) m = map_option (\<lambda>c. (r * c) div t) (map_of ms m)"
  by (simp add: pay_out_def map_of_map)

lemma window_eq:
  "drop (if length xs > n then length xs - n else 0) xs = last_n n xs"
  by (simp add: last_n_def)

lemma CalculatePPLNS_eq:
  assumes "CalculateFee R f = Some fee"
  shows "CalculatePPLNS shares n R f =
    Some (if snd (count_shares (last_n n shares)) = 0 then []
          else pay_out (R - fee) (snd (count_shares (last_n n shares)))
                 (fst (count_shares (last_n n shares))))"
  using assms
  by (simp add: CalculatePPLNS_def window_eq Let_def case_prod_beta del: drop_eq_Nil)

lemma CalculateProportional_eq:
  assumes "CalculateFee R f = Some fee"
  shows "CalculateProportional shares R f =
    Some (if snd (count_shares shares) = 0 then []
          else pay_out (R - fee) (snd (count_shares shares)) (fst (count_shares shares)))"
  using assms
  by (simp add: CalculateProportional_def Let_def case_prod_beta)

lemma credit_lookup:
  assumes len: "length xs < 2 ^ 64"
  shows "map_of (if snd (count_shares xs) = 0 then []
          else pay_out r (snd (count_shares xs)) (fst (count_shares xs))) m =
     (if share_count xs m = 0 then None
      else Some ((r * of_nat (share_count xs m)) div of_nat (share_total xs)))"
proof (cases "share_count xs m = 0")
  case True
  then show ?thesis using len by (simp add: pay_out_lookup count_shares_result)
next
  case False
  then have "0 < share_total xs" using share_count_le_total [of xs m] by simp
  moreover have "share_total xs < 2 ^ 64"
    using len share_total_le_length [of xs] by simp
  ultimately have "(of_nat (share_total xs) :: u64) \<noteq> 0"
    by (simp add: of_nat_neq_0)
  then show ?thesis using False len by (simp add: pay_out_lookup count_shares_result)
qed

lemma credit_sum:
  assumes len: "length xs < 2 ^ 64"
  shows "sum_values (if snd (count_shares xs) = 0 then []
          else pay_out r (snd (count_shares xs)) (fst (count_shares xs))) \<le> unat r"
proof (cases "snd (count_shares xs) = 0")
  case True
  then show ?thesis by (simp add: sum_values_def)
next
  case False
  have "sum_values (fst (count_shares xs)) = unat (snd (count_shares xs))"
    using count_shares_result [OF len] share_total_le_length [of xs] len
    by (simp add: unat_of_nat)
  from pay_out_sum [OF this False] show ?thesis using False by simp
qed

lemma exact_credit:
  fixes r :: u64
  assumes "unat r * c < 2 ^ 64" and "0 < c" and "c \<le> t" and "t < 2 ^ 64"
  shows "unat ((r * of_nat c) div of_nat t) = (unat r * c) div t"
proof -
  have c: "unat (of_nat c :: u64) = c" using assms by (simp add: unat_of_nat)
  have t: "unat (of_nat t :: u64) = t" using assms by (simp add: unat_of_nat)
  have "unat (r * of_nat c) = unat r * c"
    using assms(1) c by (simp add: unat_word_ariths)
  then show ?thesis by (simp add: unat_div t)
qed

text \<open>
  C4. For every miner \<open>m\<close>, \<open>CalculatePPLNS\<close> pays exactly
  \<open>((R - fee) * count[m]) / total\<close>, where \<open>fee = CalculateFee(R, f)\<close>, \<open>count[m]\<close> is the
  number of valid shares of \<open>m\<close> among the last \<open>N\<close> shares and \<open>total\<close> the number of
  valid shares among them. The product is a \<open>uint64_t\<close> product: the payout is the
  integer quotient whenever \<open>fee \<le> R\<close> and \<open>(R - fee) * count[m] < 2 ^ 64\<close>. A miner
  without a valid share in the window gets no entry. For reward 100000000, fee 1 percent,
  window 1000 and counts 300, 200 and 500 the fee is 1000000 and the payouts are
  29700000, 19800000 and 49500000.
\<close>

theorem CalculatePPLNS_credit:
  "(length shares < 2 ^ 64 \<and> CalculateFee R f = Some fee \<longrightarrow>
      (\<exists>payouts. CalculatePPLNS shares N R f = Some payouts \<and>
         (\<forall>m. map_of payouts m =
            (if share_count (last_n N shares) m = 0 then None
             else Some (((R - fee) * of_nat (share_count (last_n N shares) m))
                        div of_nat (share_total (last_n N shares))))) \<and>
         (\<forall>m w. map_of payouts m = Some w \<and> fee \<le> R
                \<and> (unat R - unat fee) * share_count (last_n N shares) m < 2 ^ 64 \<longrightarrow>
            unat w = ((unat R - unat fee) * share_count (last_n N shares) m)
                     div share_total (last_n N shares))))
   \<and> (length shares < 2 ^ 64 \<and> share_count (last_n 1000 shares) a = 300
        \<and> share_count (last_n 1000 shares) b = 200 \<and> share_count (last_n 1000 shares) c = 500
        \<and> share_total (last_n 1000 shares) = 1000 \<longrightarrow>
        CalculateFee 100000000 1 = Some 1000000 \<and>
        (\<exists>payouts. CalculatePPLNS shares 1000 100000000 1 = Some payouts \<and>
           map_of payouts a = Some 29700000 \<and> map_of payouts b = Some 19800000 \<and>
           map_of payouts c = Some 49500000))"
proof (intro conjI impI)
  assume a: "length shares < 2 ^ 64 \<and> CalculateFee R f = Some fee"
  define win where "win = last_n N shares"
  have "length win \<le> length shares" by (simp add: win_def last_n_def)
  then have len: "length win < 2 ^ 64" using a by simp
  define payouts where "payouts = (if snd (count_shares win) = 0 then []
          else pay_out (R - fee) (snd (count_shares win)) (fst (count_shares win)))"
  have eq: "CalculatePPLNS shares N R f = Some payouts"
    using a CalculatePPLNS_eq [of R f fee shares N] by (simp add: payouts_def win_def)
  have look: "map_of payouts m =
            (if share_count win m = 0 then None
             else Some (((R - fee) * of_nat (share_count win m)) div of_nat (share_total win)))" for m
    unfolding payouts_def by (rule credit_lookup [OF len])
  have exact: "unat w = ((unat R - unat fee) * share_count win m) div share_total win"
    if h: "map_of payouts m = Some w \<and> fee \<le> R \<and> (unat R - unat fee) * share_count win m < 2 ^ 64"
    for m w
  proof -
    have pos: "0 < share_count win m" using h look [of m] by (cases "share_count win m = 0") auto
    then have w: "w = ((R - fee) * of_nat (share_count win m)) div of_nat (share_total win)"
      using h look [of m] by simp
    have sub: "unat (R - fee) = unat R - unat fee" using h by (simp add: unat_sub)
    have "share_total win < 2 ^ 64"
      using len share_total_le_length [of win] by simp
    from exact_credit [of "R - fee" "share_count win m" "share_total win", OF _ pos share_count_le_total this]
    show ?thesis using h sub w by simp
  qed
  show "\<exists>payouts. CalculatePPLNS shares N R f = Some payouts \<and>
         (\<forall>m. map_of payouts m =
            (if share_count (last_n N shares) m = 0 then None
             else Some (((R - fee) * of_nat (share_count (last_n N shares) m))
                        div of_nat (share_total (last_n N shares))))) \<and>
         (\<forall>m w. map_of payouts m = Some w \<and> fee \<le> R
                \<and> (unat R - unat fee) * share_count (last_n N shares) m < 2 ^ 64 \<longrightarrow>
            unat w = ((unat R - unat fee) * share_count (last_n N shares) m)
                     div share_total (last_n N shares))"
    using eq look exact unfolding win_def by blast
next
  show "CalculateFee 100000000 1 = Some 1000000" by code_simp
next
  assume a: "length shares < 2 ^ 64 \<and> share_count (last_n 1000 shares) a = 300
        \<and> share_count (last_n 1000 shares) b = 200 \<and> share_count (last_n 1000 shares) c = 500
        \<and> share_total (last_n 1000 shares) = 1000"
  define win where "win = last_n 1000 shares"
  have "length win \<le> length shares" by (simp add: win_def last_n_def)
  then have len: "length win < 2 ^ 64" using a by simp
  have fee: "CalculateFee 100000000 1 = Some 1000000" by code_simp
  define payouts where "payouts = (if snd (count_shares win) = 0 then []
          else pay_out (100000000 - 1000000) (snd (count_shares win)) (fst (count_shares win)))"
  have eq: "CalculatePPLNS shares 1000 100000000 1 = Some payouts"
    using CalculatePPLNS_eq [OF fee, of shares 1000] by (simp add: payouts_def win_def)
  have look: "map_of payouts m =
            (if share_count win m = 0 then None
             else Some (((100000000 - 1000000) * of_nat (share_count win m)) div of_nat (share_total win)))" for m
    unfolding payouts_def by (rule credit_lookup [OF len])
  have "map_of payouts a = Some 29700000" "map_of payouts b = Some 19800000"
       "map_of payouts c = Some 49500000"
    using a by (simp_all add: look win_def)
  then show "\<exists>payouts. CalculatePPLNS shares 1000 100000000 1 = Some payouts \<and>
           map_of payouts a = Some 29700000 \<and> map_of payouts b = Some 19800000 \<and>
           map_of payouts c = Some 49500000"
    using eq by blast
qed

lemma scenario_counts:
  "length scenario_shares = 1000"
  "share_count (last_n 1000 scenario_shares) 1 = 300"
  "share_count (last_n 1000 scenario_shares) 2 = 200"
  "share_count (last_n 1000 scenario_shares) 3 = 500"
  "share_total (last_n 1000 scenario_shares) = 1000"
  by (simp_all add: scenario_shares_def last_n_def share_count_def share_total_def share_of_def)

text \<open>The theorem at the shares of scenario 6.\<close>

theorem CalculatePPLNS_credit_witness:
  "CalculateFee 100000000 1 = Some 1000000 \<and>
   (\<exists>payouts. CalculatePPLNS scenario_shares 1000 100000000 1 = Some payouts \<and>
      map_of payouts 1 = Some 29700000 \<and> map_of payouts 2 = Some 19800000 \<and>
      map_of payouts 3 = Some 49500000)"
  using CalculatePPLNS_credit [of scenario_shares 100000000 1 1000000 1000 1 2 3]
  by (simp add: scenario_counts)

text \<open>
  With reward \<open>2 ^ 63\<close>, no fee and four valid shares of one miner, the product
  \<open>reward * count\<close> wraps around to 0 and the miner is paid 0, not \<open>2 ^ 63\<close>.
\<close>

theorem CalculatePPLNS_overflow_counterexample:
  "CalculatePPLNS four_shares 4 9223372036854775808 0 = Some [(1, 0)]
   \<and> CalculateFee 9223372036854775808 0 = Some 0
   \<and> share_count (last_n 4 four_shares) 1 = 4
   \<and> share_total (last_n 4 four_shares) = 4
   \<and> (9223372036854775808 * 4) div 4 \<noteq> (0 :: int)"
  by code_simp

text \<open>
  C9. Payout conservation: the payouts returned by \<open>CalculatePPLNS\<close> and by
  \<open>CalculateProportional\<close> sum to at most the net reward \<open>block_reward - fee\<close> that the
  calculators compute, a \<open>uint64_t\<close> difference; when \<open>CalculateFee(R, f) \<le> R\<close> this is
  the integer \<open>R - CalculateFee(R, f)\<close>.
\<close>

theorem payouts_conserved:
  "length shares < 2 ^ 64 \<and> CalculateFee R f = Some fee \<longrightarrow>
     (\<exists>p q. CalculatePPLNS shares N R f = Some p
        \<and> CalculateProportional shares R f = Some q
        \<and> sum_values p \<le> unat (R - fee) \<and> sum_values q \<le> unat (R - fee)
        \<and> (fee \<le> R \<longrightarrow> int (sum_values p) \<le> uint R - uint fee
                       \<and> int (sum_values q) \<le> uint R - uint fee))"
proof
  assume a: "length shares < 2 ^ 64 \<and> CalculateFee R f = Some fee"
  define win where "win = last_n N shares"
  have "length win \<le> length shares" by (simp add: win_def last_n_def)
  then have len: "length win < 2 ^ 64" using a by simp
  define p where "p = (if snd (count_shares win) = 0 then []
          else pay_out (R - fee) (snd (count_shares win)) (fst (count_shares win)))"
  define q where "q = (if snd (count_shares shares) = 0 then []
          else pay_out (R - fee) (snd (count_shares shares)) (fst (count_shares shares)))"
  have ep: "CalculatePPLNS shares N R f = Some p"
    using a CalculatePPLNS_eq [of R f fee shares N] by (simp add: p_def win_def)
  have eq: "CalculateProportional shares R f = Some q"
    using a CalculateProportional_eq [of R f fee shares] by (simp add: q_def)
  have sp: "sum_values p \<le> unat (R - fee)"
    unfolding p_def by (rule credit_sum [OF len])
  have sq: "sum_values q \<le> unat (R - fee)"
    unfolding q_def using a by (intro credit_sum) simp
  have exact: "int (sum_values p) \<le> uint R - uint fee \<and> int (sum_values q) \<le> uint R - uint fee"
    if "fee \<le> R"
  proof -
    have "int (unat (R - fee)) = uint R - uint fee"
      using that by (simp add: unat_sub word_le_nat_alt of_nat_diff)
    then show ?thesis using sp sq by linarith
  qed
  show "\<exists>p q. CalculatePPLNS shares N R f = Some p
        \<and> CalculateProportional shares R f = Some q
        \<and> sum_values p \<le> unat (R - fee) \<and> sum_values q \<le> unat (R - fee)
        \<and> (fee \<le> R \<longrightarrow> int (sum_values p) \<le> uint R - uint fee
                       \<and> int (sum_values q) \<le> uint R - uint fee)"
    using ep eq sp sq exact by blast
qed

text \<open>The theorem at four shares of one miner, reward 100000000 and fee 1 percent.\<close>

theorem payouts_conserved_witness:
  "\<exists>p q. CalculatePPLNS four_shares 4 100000000 1 = Some p
      \<and> CalculateProportional four_shares 100000000 1 = Some q
      \<and> sum_values p \<le> 99000000 \<and> sum_values q \<le> 99000000"
proof -
  have fee: "CalculateFee 100000000 1 = Some 1000000" by code_simp
  have len: "length four_shares < 2 ^ 64" by (simp add: four_shares_def)
  show ?thesis
    using payouts_conserved [of four_shares 100000000 1 1000000 4] fee len by auto
qed

text \<open>
  With a fee of 200 percent \<open>CalculateFee 100 200 = 200\<close> exceeds the reward, the
  difference \<open>100 - 200\<close> wraps around, and both calculators pay
  18446744073709551516 out of a reward of 100.
\<close>

theorem payouts_exceed_net_reward_counterexample:
  "CalculateFee 100 200 = Some 200
   \<and> CalculatePPLNS [share_of 1] 1 100 200 = Some [(1, 18446744073709551516)]
   \<and> CalculateProportional [share_of 1] 100 200 = Some [(1, 18446744073709551516)]
   \<and> int (sum_values [(1, 18446744073709551516)]) = 18446744073709551516
   \<and> \<not> (18446744073709551516 \<le> (100 - 200 :: int))"
proof -
  have "CalculateFee 100 200 = Some 200" by code_simp
  moreover have "CalculatePPLNS [share_of 1] 1 100 200 = Some [(1, 18446744073709551516)]"
    by code_simp
  moreover have "CalculateProportional [share_of 1] 100 200 = Some [(1, 18446744073709551516)]"
    by code_simp
  moreover have "int (sum_values [(1, 18446744073709551516)]) = 18446744073709551516"
    by (simp add: sum_values_def)
  ultimately show ?thesis by simp
qed

text \<open>
  The fee can exceed the reward at 100 percent too: 9007199254740995 is not a double, its
  conversion rounds up, and the fee is 9007199254740996.
\<close>

lemma rounding_fee_above_reward:
  "CalculateFee 9007199254740995 100 = Some 9007199254740996
   \<and> CalculatePPLNS [share_of 1] 1 9007199254740995 100 = Some [(1, 18446744073709551615)]"
  by code_simp

section \<open>Binary64 arithmetic: results\<close>

text \<open>
  The binade is the exponent of the leading bit, and rounding leaves every number with a
  significand below \<open>2 ^ 53\<close> and an exponent of at least \<open>- 1074\<close> unchanged.
\<close>

lemma two_powi_pos: "0 < (2::rat) powi n"
  by (simp add: power_int_def)

lemma binade_bounds:
  assumes "x \<noteq> 0"
  shows "2 powi binade x \<le> \<bar>x\<bar> \<and> \<bar>x\<bar> < 2 powi (binade x + 1)"
proof -
  obtain p q where pq: "quotient_of \<bar>x\<bar> = (p, q)" by (cases "quotient_of \<bar>x\<bar>")
  have q: "0 < q" using pq by (rule quotient_of_denom_pos)
  have xq: "\<bar>x\<bar> = of_int p / of_int q" using pq by (rule quotient_of_div)
  have "0 < \<bar>x\<bar>" using assms by simp
  then have p: "0 < p" using q xq by (simp add: zero_less_divide_iff)
  define bp where "bp = bitlen p"
  define bq where "bq = bitlen q"
  have bp1: "1 \<le> bp" using p bitlen_eq_zero_iff [of p] bitlen_nonneg [of p] by (simp add: bp_def)
  have bq1: "1 \<le> bq" using q bitlen_eq_zero_iff [of q] bitlen_nonneg [of q] by (simp add: bq_def)
  have "2 ^ nat (bp - 1) \<le> p" "p < 2 ^ nat bp"
    using bitlen_bounds [OF p] by (simp_all add: bp_def)
  then have "(of_int (2 ^ nat (bp - 1)) :: rat) \<le> of_int p" "(of_int p :: rat) < of_int (2 ^ nat bp)"
    by (simp_all only: of_int_le_iff of_int_less_iff)
  then have plo: "(2::rat) powi (bp - 1) \<le> of_int p" and phi: "(of_int p :: rat) < 2 powi bp"
    using bp1 by (simp_all add: power_int_nonneg_exp)
  have "2 ^ nat (bq - 1) \<le> q" "q < 2 ^ nat bq"
    using bitlen_bounds [OF q] by (simp_all add: bq_def)
  then have "(of_int (2 ^ nat (bq - 1)) :: rat) \<le> of_int q" "(of_int q :: rat) < of_int (2 ^ nat bq)"
    by (simp_all only: of_int_le_iff of_int_less_iff)
  then have qlo: "(2::rat) powi (bq - 1) \<le> of_int q" and qhi: "(of_int q :: rat) < 2 powi bq"
    using bq1 by (simp_all add: power_int_nonneg_exp)
  define d where "d = bp - bq"
  have "of_int p / of_int q < (2::rat) powi bp / 2 powi (bq - 1)"
    using phi qlo p by (intro frac_less) (simp_all add: two_powi_pos)
  also have "\<dots> = 2 powi (d + 1)"
    by (simp add: d_def power_int_diff [symmetric] algebra_simps)
  finally have up: "\<bar>x\<bar> < 2 powi (d + 1)" by (simp add: xq)
  have "(2::rat) powi (bp - 1) / 2 powi bq < of_int p / of_int q"
    using plo qhi q by (intro frac_less2) (simp_all add: two_powi_pos)
  moreover have "(2::rat) powi (bp - 1) / 2 powi bq = 2 powi (d - 1)"
    by (simp add: d_def power_int_diff [symmetric] algebra_simps)
  ultimately have lo: "2 powi (d - 1) < \<bar>x\<bar>" by (simp add: xq)
  have b: "binade x = (if 2 powi d \<le> \<bar>x\<bar> then d else d - 1)"
    by (simp add: binade_def pq d_def bp_def bq_def)
  show ?thesis
  proof (cases "2 powi d \<le> \<bar>x\<bar>")
    case True
    then show ?thesis using up b by simp
  next
    case False
    then show ?thesis using lo b by simp
  qed
qed

lemma binade_eqI:
  assumes "2 powi e \<le> \<bar>x\<bar>" and "\<bar>x\<bar> < 2 powi (e + 1)"
  shows "binade x = e"
proof -
  have "0 < \<bar>x\<bar>" by (rule less_le_trans [OF two_powi_pos assms(1)])
  then have "x \<noteq> 0" by simp
  from binade_bounds [OF this]
  have b: "2 powi binade x \<le> \<bar>x\<bar>" "\<bar>x\<bar> < 2 powi (binade x + 1)" by simp_all
  have "(2::rat) powi e < 2 powi (binade x + 1)" using assms(1) b(2) by simp
  then have 1: "e < binade x + 1"
    by (metis not_less power_int_increasing one_le_numeral)
  have "(2::rat) powi binade x < 2 powi (e + 1)" using assms(2) b(1) by simp
  then have 2: "binade x < e + 1"
    by (metis not_less power_int_increasing one_le_numeral)
  from 1 2 show ?thesis by simp
qed

lemma binade_less:
  assumes "x \<noteq> 0" and "\<bar>x\<bar> < 2 powi n"
  shows "binade x < n"
proof -
  have "(2::rat) powi binade x < 2 powi n"
    using binade_bounds [OF assms(1)] assms(2) by simp
  then show ?thesis
    by (metis not_less power_int_increasing one_le_numeral)
qed

lemma round_half_even_of_int: "round_half_even (of_int n) = n"
  by (simp add: round_half_even_def)

lemma fl_exact:
  assumes m: "\<bar>m\<bar> < 2 ^ 53" and k: "- 1074 \<le> k"
  shows "fl (of_int m * 2 powi k) = of_int m * 2 powi k"
proof (cases "m = 0")
  case True
  then show ?thesis by (simp add: fl_def)
next
  case False
  define x :: rat where "x = of_int m * 2 powi k"
  have x0: "x \<noteq> 0" using False two_powi_pos [of k] by (simp add: x_def)
  define e where "e = max (binade x) (- 1022)"
  have ek: "e - 52 \<le> k"
  proof (cases "- 1022 \<le> binade x")
    case False
    then show ?thesis using k by (simp add: e_def)
  next
    case True
    have "(2::rat) powi binade x \<le> \<bar>x\<bar>" using binade_bounds [OF x0] by simp
    also have "\<bar>x\<bar> = of_int \<bar>m\<bar> * 2 powi k"
      using two_powi_pos [of k] by (simp add: x_def abs_mult)
    also have "\<dots> < 2 powi 53 * 2 powi k"
    proof -
      have "(of_int \<bar>m\<bar> :: rat) < of_int (2 ^ 53)" using m by (simp only: of_int_less_iff)
      then have "(of_int \<bar>m\<bar> :: rat) < 2 powi 53" by simp
      then show ?thesis using two_powi_pos [of k] by simp
    qed
    also have "\<dots> = 2 powi (53 + k)" by (simp add: power_int_add)
    finally have "binade x < 53 + k"
      by (metis not_less power_int_increasing one_le_numeral)
    then show ?thesis using True by (simp add: e_def)
  qed
  define j where "j = nat (k - (e - 52))"
  have kj: "k = (e - 52) + int j" using ek by (simp add: j_def)
  have "x / 2 powi (e - 52) = of_int m * 2 powi int j"
    unfolding x_def by (subst kj) (simp add: power_int_add)
  also have "\<dots> = of_int (m * 2 ^ j)" by (simp add: power_int_of_nat)
  finally have int: "x / 2 powi (e - 52) = of_int (m * 2 ^ j)" .
  have "fl x = of_int (round_half_even (x / 2 powi (e - 52))) * 2 powi (e - 52)"
    using x0 by (simp add: fl_def e_def Let_def)
  also have "\<dots> = (x / 2 powi (e - 52)) * 2 powi (e - 52)"
    by (simp only: int round_half_even_of_int)
  also have "\<dots> = x" using two_powi_pos [of "e - 52"] by simp
  finally show ?thesis by (simp add: x_def)
qed

lemma fl_of_int: "\<bar>m\<bar> < 2 ^ 53 \<Longrightarrow> fl (of_int m) = of_int m"
  using fl_exact [of m 0] by simp

section \<open>Variable difficulty: results\<close>

lemma double_of_u64_exact: "uint d < 2 ^ 53 \<Longrightarrow> double_of_u64 d = of_int (uint d)"
  unfolding double_of_u64_def by (rule fl_of_int) simp

lemma scale_difficulty_exact:
  assumes d: "uint d < 2 ^ 51" and a: "a = 1 \<or> a = 2"
  shows "scale_difficulty d (3 / 2 ^ a) = Some (word_of_int ((3 * uint d) div 2 ^ a))"
proof -
  define n where "n = uint d"
  have n: "0 \<le> n" "n < 2 ^ 51" using d by (simp_all add: n_def)
  define y :: rat where "y = of_int (3 * n) * 2 powi (- int a)"
  have y_alt: "y = of_int (3 * n) / of_int (2 ^ a)"
    by (simp add: y_def power_int_minus field_simps)
  have prod: "of_int n * (3 / 2 ^ a) = y"
    by (simp add: y_def power_int_minus field_simps)
  have "fl y = y"
    unfolding y_def using n a by (intro fl_exact) auto
  moreover have y0: "0 \<le> y" using n by (simp add: y_alt)
  moreover have ylt: "y < 2 ^ 53"
  proof -
    have "y \<le> of_int (3 * n)"
      using n by (simp add: y_alt field_simps mult_le_cancel_left1)
    also have "\<dots> < of_int (2 ^ 53)"
      using n by (simp only: of_int_less_iff) simp
    finally show ?thesis by simp
  qed
  moreover have "y = 0 \<or> binade y < 1024"
  proof (cases "y = 0")
    case False
    have "\<bar>y\<bar> < 2 powi 53" using y0 ylt by simp
    from binade_less [OF False this] show ?thesis by simp
  qed simp
  ultimately have mul: "double_mul (double_of_u64 d) (3 / 2 ^ a) = Some y"
    using d prod by (simp add: double_mul_def finite_result_def double_of_u64_exact n_def Let_def)
  have "\<lfloor>y\<rfloor> = (3 * n) div 2 ^ a"
    unfolding y_alt by (rule floor_divide_of_int_eq)
  moreover have "y < 2 ^ 64" using ylt by (rule less_trans) simp
  ultimately have "u64_of_double y = Some (word_of_int ((3 * n) div 2 ^ a))"
    using y0 by (simp add: u64_of_double_def)
  then show ?thesis using mul by (simp add: scale_difficulty_def n_def)
qed

lemma max_floor_word:
  assumes "1000 \<le> v" and "v < 2 ^ 64"
  shows "max 1000 (word_of_int v :: u64) = word_of_int v"
proof -
  have "uint (word_of_int v :: u64) = v"
    using assms by (simp add: uint_word_of_int take_bit_int_eq_self)
  then have "(1000 :: u64) \<le> word_of_int v"
    using assms by (simp add: word_le_def)
  then show ?thesis by (simp add: max_def)
qed

text \<open>
  C6. The adjustment rule of \<open>CalculateDifficulty\<close>. With fewer than 3 timestamps the
  difficulty is returned unchanged. With at least 3 timestamps and a difficulty below
  \<open>2 ^ 51\<close> (so that the products are exact doubles), let \<open>secs\<close> be the whole seconds
  from the first to the last timestamp, \<open>avg\<close> the double quotient of \<open>secs\<close> by the
  number of timestamps less one, and \<open>ratio\<close> the double quotient of \<open>avg\<close> by the
  target share time (infinite or a NaN for a zero target). The rule gives \<open>v\<close>:
  \<open>old_diff * 1.5\<close> rounded down when \<open>ratio < 1 - variance\<close>, \<open>old_diff * 0.75\<close> rounded
  down when \<open>ratio > 1 + variance\<close>, and \<open>old_diff\<close> otherwise, the comparisons being
  those of doubles. Whenever \<open>v\<close> is at least 1000 and within given bounds
  \<open>[min_diff, max_diff]\<close>, the result is \<open>v\<close>, which is \<open>v\<close> clamped to the bounds.
\<close>

theorem CalculateDifficulty_rule:
  "(length (recent_shares w) < 3 \<longrightarrow> CalculateDifficulty vd w = Some (current_difficulty w))
   \<and> (3 \<le> length (recent_shares w) \<and> uint (current_difficulty w) < 2 ^ 51
        \<and> secs = duration_cast_seconds (last (recent_shares w) - hd (recent_shares w))
        \<and> avg = fl (double_of_i64 secs / double_of_size (length (recent_shares w) - 1))
        \<and> ratio = float64_div avg (vd_target_share_time vd)
        \<and> v = (if float64_less ratio (float64_sub 1 (vd_variance vd))
               then (3 * uint (current_difficulty w)) div 2
               else if float64_less (float64_add 1 (vd_variance vd)) ratio
               then (3 * uint (current_difficulty w)) div 4
               else uint (current_difficulty w))
        \<and> 1000 \<le> v \<and> min_diff \<le> v \<and> v \<le> max_diff \<longrightarrow>
      CalculateDifficulty vd w = Some (word_of_int (max min_diff (min max_diff v))))"
proof (intro conjI impI)
  assume "length (recent_shares w) < 3"
  then show "CalculateDifficulty vd w = Some (current_difficulty w)"
    by (simp add: CalculateDifficulty_def)
next
  assume a: "3 \<le> length (recent_shares w) \<and> uint (current_difficulty w) < 2 ^ 51
        \<and> secs = duration_cast_seconds (last (recent_shares w) - hd (recent_shares w))
        \<and> avg = fl (double_of_i64 secs / double_of_size (length (recent_shares w) - 1))
        \<and> ratio = float64_div avg (vd_target_share_time vd)
        \<and> v = (if float64_less ratio (float64_sub 1 (vd_variance vd))
               then (3 * uint (current_difficulty w)) div 2
               else if float64_less (float64_add 1 (vd_variance vd)) ratio
               then (3 * uint (current_difficulty w)) div 4
               else uint (current_difficulty w))
        \<and> 1000 \<le> v \<and> min_diff \<le> v \<and> v \<le> max_diff"
  define d where "d = current_difficulty w"
  define c1 where "c1 = float64_less ratio (float64_sub 1 (vd_variance vd))"
  define c2 where "c2 = float64_less (float64_add 1 (vd_variance vd)) ratio"
  from a have n3': "3 \<le> length (recent_shares w)"
    and d': "uint (current_difficulty w) < 2 ^ 51"
    and secs: "secs = duration_cast_seconds (last (recent_shares w) - hd (recent_shares w))"
    and avg: "avg = fl (double_of_i64 secs / double_of_size (length (recent_shares w) - 1))"
    and rat: "ratio = float64_div avg (vd_target_share_time vd)"
    and v': "v = (if float64_less ratio (float64_sub 1 (vd_variance vd))
               then (3 * uint (current_difficulty w)) div 2
               else if float64_less (float64_add 1 (vd_variance vd)) ratio
               then (3 * uint (current_difficulty w)) div 4
               else uint (current_difficulty w))"
    and v1000: "1000 \<le> v" and lo: "min_diff \<le> v" and hi: "v \<le> max_diff"
    by blast+
  have n3: "\<not> length (recent_shares w) < 3" using n3' by simp
  have d: "uint d < 2 ^ 51" using d' by (simp add: d_def)
  have ratio: "float64_div
        (fl (double_of_i64
               (duration_cast_seconds (last (recent_shares w) - hd (recent_shares w)))
             / double_of_size (length (recent_shares w) - 1)))
        (vd_target_share_time vd) = ratio"
    unfolding rat avg secs ..
  have v: "v = (if c1 then (3 * uint d) div 2 else if c2 then (3 * uint d) div 4 else uint d)"
    unfolding c1_def c2_def d_def by (rule v')
  have up: "scale_difficulty d (3 / 2) = Some (word_of_int ((3 * uint d) div 2))"
    using scale_difficulty_exact [of d 1] d by simp
  have down: "scale_difficulty d (3 / 4) = Some (word_of_int ((3 * uint d) div 4))"
    using scale_difficulty_exact [of d 2] d by simp
  have v64: "v < 2 ^ 64"
  proof -
    have "0 \<le> uint d" by simp
    then have "(3 * uint d) div 2 \<le> 3 * uint d" "(3 * uint d) div 4 \<le> 3 * uint d"
      "uint d \<le> 3 * uint d"
      by linarith+
    then have "v \<le> 3 * uint d" unfolding v by simp
    also have "\<dots> < 2 ^ 64" using d by simp
    finally show ?thesis .
  qed
  have fl: "max 1000 (word_of_int v :: u64) = word_of_int v"
    using v1000 v64 by (rule max_floor_word)
  have clamp: "max min_diff (min max_diff v) = v" using lo hi by simp
  have new_diff: "(if c1 then scale_difficulty d (3 / 2)
        else if c2 then scale_difficulty d (3 / 4) else Some d) = Some (word_of_int v)"
    unfolding v by (simp add: up down)
  have "CalculateDifficulty vd w = Some (max 1000 (word_of_int v))"
    unfolding CalculateDifficulty_def Let_def ratio d_def [symmetric] c1_def [symmetric]
      c2_def [symmetric] new_diff
    using n3 by simp
  then show "CalculateDifficulty vd w = Some (word_of_int (max min_diff (min max_diff v)))"
    by (simp only: fl clamp)
qed

lemma scenario_fast_value:
  "(if float64_less
        (float64_div
           (fl (double_of_i64
                  (duration_cast_seconds
                     (last (recent_shares (paced_worker 1024 10 4))
                        - hd (recent_shares (paced_worker 1024 10 4))))
                / double_of_size (length (recent_shares (paced_worker 1024 10 4)) - 1)))
           (vd_target_share_time (vardiff_of_config scenario_config)))
        (float64_sub 1 (vd_variance (vardiff_of_config scenario_config)))
    then (3 * uint (current_difficulty (paced_worker 1024 10 4))) div 2
    else if float64_less (float64_add 1 (vd_variance (vardiff_of_config scenario_config)))
        (float64_div
           (fl (double_of_i64
                  (duration_cast_seconds
                     (last (recent_shares (paced_worker 1024 10 4))
                        - hd (recent_shares (paced_worker 1024 10 4))))
                / double_of_size (length (recent_shares (paced_worker 1024 10 4)) - 1)))
           (vd_target_share_time (vardiff_of_config scenario_config)))
    then (3 * uint (current_difficulty (paced_worker 1024 10 4))) div 4
    else uint (current_difficulty (paced_worker 1024 10 4))) = 1536"
  "length (recent_shares (paced_worker 1024 10 4)) = 10"
  "uint (current_difficulty (paced_worker 1024 10 4)) = 1024"
  "uint (min_difficulty scenario_config) = 1"
  by code_simp+

text \<open>
  The theorem at the step up of scenario 5: difficulty 1024, ten shares 4 s apart,
  target 15 s, variance 0.3, with the bounds 1 (\<open>min_difficulty\<close>) and 100000.
\<close>

theorem CalculateDifficulty_rule_witness:
  "CalculateDifficulty (vardiff_of_config scenario_config) (paced_worker 1024 10 4)
     = Some (word_of_int (max (uint (min_difficulty scenario_config)) (min 100000 1536)))
   \<and> max (uint (min_difficulty scenario_config)) (min 100000 1536) = 1536"
proof -
  let ?w = "paced_worker 1024 10 4"
  let ?vd = "vardiff_of_config scenario_config"
  let ?secs = "duration_cast_seconds (last (recent_shares ?w) - hd (recent_shares ?w))"
  let ?avg = "fl (double_of_i64 ?secs / double_of_size (length (recent_shares ?w) - 1))"
  let ?ratio = "float64_div ?avg (vd_target_share_time ?vd)"
  have "3 \<le> length (recent_shares ?w)" "uint (current_difficulty ?w) < 2 ^ 51"
    "(1000::int) \<le> 1536" "uint (min_difficulty scenario_config) \<le> 1536" "(1536::int) \<le> 100000"
    by (simp_all add: scenario_fast_value)
  with CalculateDifficulty_rule [of ?w ?vd ?secs ?avg ?ratio 1536
      "uint (min_difficulty scenario_config)" 100000]
    scenario_fast_value(1)
  have "CalculateDifficulty ?vd ?w
     = Some (word_of_int (max (uint (min_difficulty scenario_config)) (min 100000 1536)))"
    by (simp only: simp_thms)
  then show ?thesis by (simp add: scenario_fast_value)
qed

text \<open>
  At difficulty 1001 with shares 4 s apart the code returns 1501, the product rounded
  down, where the rule of the specification, with the bounds 1 and 100000, rounds up to
  1502.
\<close>

theorem CalculateDifficulty_counterexample:
  "CalculateDifficulty (vardiff_of_config scenario_config) (paced_worker 1001 10 4) = Some 1501
   \<and> spec_new_difficulty (4 / 15) (3 / 10) 1001 (uint (min_difficulty scenario_config))
        100000 = 1502"
  by code_simp

text \<open>
  A target share time of zero: the ratio is infinite for shares 4 s apart, above every
  band, and the difficulty 1024 is multiplied by 0.75 and raised to 1000; for shares at
  one instant the ratio is a NaN, no comparison holds and the difficulty is unchanged.
\<close>

lemma CalculateDifficulty_zero_target:
  "CalculateDifficulty (test_vardiff\<lparr>vd_target_share_time := Finite 0\<rparr>)
     (paced_worker 1024 10 4) = Some 1000"
  "CalculateDifficulty (test_vardiff\<lparr>vd_target_share_time := Finite 0\<rparr>)
     (paced_worker 1024 10 0) = Some 1024"
  by code_simp+

text \<open>
  The inputs of the tests \<open>VarDiffAdjustment_RespectsMinDifficulty\<close> and
  \<open>VarDiffAdjustment_RespectsMaxDifficulty\<close> of \<open>pool_tests.cpp\<close>, which expect a
  result of at least 5000 and of at most 50000: the function, which is given no bounds,
  returns 4500 and 60000.
\<close>

lemma CalculateDifficulty_ignores_bounds:
  "CalculateDifficulty test_vardiff (paced_worker 6000 5 100) = Some 4500"
  "CalculateDifficulty test_vardiff (paced_worker 40000 5 1) = Some 60000"
  by code_simp+

section \<open>Payouts: results\<close>

lemma sint_small: "uint (x::u64) < 2 ^ 63 \<Longrightarrow> sint x = uint x"
proof -
  assume a: "uint x < 2 ^ 63"
  have "- (2 ^ 63) \<le> uint x" by (rule order_trans [of _ 0]) simp_all
  then have "signed_take_bit 63 (uint x) = uint x"
    using a by (intro signed_take_bit_int_eq_self) simp_all
  then show ?thesis by (simp add: sint_uint)
qed

lemma payout_sweep_payment:
  "payout_sweep settle cfg now ms pid = (ms', ps, pid') \<Longrightarrow> p \<in> set ps \<Longrightarrow>
   \<exists>mid miner. (mid, miner) \<in> set ms \<and> (mid, settle miner now) \<in> set ms'
     \<and> p = new_payment (payment_id p) mid miner now
     \<and> min_payout cfg \<le> unpaid_balance miner
     \<and> sint (payout_interval cfg) \<le> duration_cast_seconds (now - last_payout miner)"
proof (induction ms arbitrary: pid ms' ps pid')
  case Nil
  then show ?case by simp
next
  case (Cons a ms)
  obtain mid miner where a: "a = (mid, miner)" by (cases a)
  obtain r1 r2 r3 where r: "payout_sweep settle cfg now ms pid = (r1, r2, r3)"
    by (cases "payout_sweep settle cfg now ms pid")
  obtain q1 q2 q3 where q: "payout_sweep settle cfg now ms (pid + 1) = (q1, q2, q3)"
    by (cases "payout_sweep settle cfg now ms (pid + 1)")
  show ?case
  proof (cases "unpaid_balance miner < min_payout cfg
      \<or> duration_cast_seconds (now - last_payout miner) < sint (payout_interval cfg)")
    case True
    then have ps: "ps = r2" and ms': "ms' = (mid, miner) # r1"
      using Cons.prems(1) r unfolding a by (auto split: if_splits)
    then have "p \<in> set r2" using Cons.prems(2) by simp
    from Cons.IH [OF r this] show ?thesis unfolding ms' by auto
  next
    case False
    then have ps: "ps = new_payment pid mid miner now # q2"
      and ms': "ms' = (mid, settle miner now) # q1"
      using Cons.prems(1) q unfolding a by (auto split: if_splits)
    show ?thesis
    proof (cases "p = new_payment pid mid miner now")
      case True
      then have "payment_id p = pid" by (simp add: new_payment_def)
      then show ?thesis
        using True False unfolding a ms' by (intro exI [of _ mid] exI [of _ miner]) auto
    next
      case neq: False
      then have "p \<in> set q2" using Cons.prems(2) ps by simp
      from Cons.IH [OF q this] show ?thesis unfolding ms' by auto
    qed
  qed
qed

lemma payout_sweep_keys:
  "payout_sweep settle cfg now ms pid = (ms', ps, pid') \<Longrightarrow> map fst ms' = map fst ms"
proof (induction ms arbitrary: pid ms' ps pid')
  case Nil
  then show ?case by simp
next
  case (Cons a ms)
  obtain mid miner where a: "a = (mid, miner)" by (cases a)
  obtain r1 r2 r3 where r: "payout_sweep settle cfg now ms pid = (r1, r2, r3)"
    by (cases "payout_sweep settle cfg now ms pid")
  obtain q1 q2 q3 where q: "payout_sweep settle cfg now ms (pid + 1) = (q1, q2, q3)"
    by (cases "payout_sweep settle cfg now ms (pid + 1)")
  show ?case
    using Cons.prems Cons.IH [OF r] Cons.IH [OF q] r q unfolding a
    by (auto split: if_splits)
qed

text \<open>
  What a sweep with either way of settling does for a payment it creates: the miner
  passed both thresholds before, and is recorded afterwards with the time of the payment
  as its last payout and no unpaid balance.
\<close>

lemma ProcessPayouts_with_payment:
  assumes run: "ProcessPayouts_with settle now s = (new_payments, s')"
    and settle: "settle = settle_pool_cpp \<or> settle = settle_mining_pool_server_cpp"
    and p: "p \<in> set new_payments"
  shows "\<exists>mid miner miner'. (mid, miner) \<in> set (miners s) \<and> (mid, miner') \<in> set (miners s')
     \<and> Payment.miner_id p = mid \<and> Payment.created_at p = now \<and> status p = ''pending''
     \<and> amount p = unpaid_balance miner \<and> min_payout (config s) \<le> amount p
     \<and> sint (payout_interval (config s))
          \<le> duration_cast_seconds (Payment.created_at p - last_payout miner)
     \<and> (uint (payout_interval (config s)) < 2 ^ 63 \<longrightarrow>
          uint (payout_interval (config s))
            \<le> duration_cast_seconds (Payment.created_at p - last_payout miner))
     \<and> last_payout miner' = Payment.created_at p \<and> unpaid_balance miner' = 0
     \<and> (distinct (map fst (miners s)) \<longrightarrow>
          map_of (miners s) mid = Some miner \<and> map_of (miners s') mid = Some miner')"
proof -
  obtain ms pid where sw:
    "payout_sweep settle (config s) now (miners s) (next_payment_id s) = (ms, new_payments, pid)"
    and ms: "miners s' = ms"
    using run by (auto simp: ProcessPayouts_with_def split: prod.splits)
  from payout_sweep_payment [OF sw p]
  obtain mid miner where m: "(mid, miner) \<in> set (miners s)"
    "(mid, settle miner now) \<in> set ms"
    "p = new_payment (payment_id p) mid miner now"
    "min_payout (config s) \<le> unpaid_balance miner"
    "sint (payout_interval (config s)) \<le> duration_cast_seconds (now - last_payout miner)"
    by blast
  have f: "Payment.miner_id p = mid" "Payment.created_at p = now" "status p = ''pending''"
    "amount p = unpaid_balance miner"
    by (subst m(3), simp add: new_payment_def)+
  have st: "last_payout (settle miner now) = now" "unpaid_balance (settle miner now) = 0"
    using settle by (auto simp: settle_pool_cpp_def settle_mining_pool_server_cpp_def)
  have keys: "map fst ms = map fst (miners s)" using sw by (rule payout_sweep_keys)
  have si: "sint (payout_interval (config s)) = uint (payout_interval (config s))"
    if "uint (payout_interval (config s)) < 2 ^ 63"
    using that by (rule sint_small)
  have look: "map_of (miners s) mid = Some miner \<and> map_of (miners s') mid = Some (settle miner now)"
    if "distinct (map fst (miners s))"
    using that m(1,2) keys ms by simp
  show ?thesis
    using m f st si look ms
    by (intro exI [of _ mid] exI [of _ miner] exI [of _ "settle miner now"]) auto
qed

lemma ProcessPayouts_with_history:
  "ProcessPayouts_with settle now s = (new_payments, s') \<Longrightarrow>
   payment_history s' = payment_history s @ new_payments \<and> config s' = config s"
  by (auto simp: ProcessPayouts_with_def split: prod.splits)

text \<open>
  C5. Every payment created by a sweep, in either file, is appended to the payment
  history in status pending, carries the whole unpaid balance of its miner, which is at
  least \<open>min_payout\<close>, and is created only when the whole seconds since the miner's
  last payout are at least \<open>static_cast<int64_t>(payout_interval)\<close>. When
  \<open>payout_interval < 2 ^ 63\<close> that is the interval itself. The sweep records the payout:
  afterwards the miner has the time of the payment as its last payout and no unpaid
  balance, so that the next sweep measures the interval from this payment.
\<close>

theorem ProcessPayouts_thresholds:
  "(ProcessPayouts_pool_cpp now s = (new_payments, s')
      \<or> ProcessPayouts_mining_pool_server_cpp now s = (new_payments, s'))
    \<and> p \<in> set new_payments \<longrightarrow>
   payment_history s' = payment_history s @ new_payments
   \<and> (\<exists>mid miner miner'. (mid, miner) \<in> set (miners s) \<and> (mid, miner') \<in> set (miners s')
     \<and> Payment.miner_id p = mid \<and> Payment.created_at p = now \<and> status p = ''pending''
     \<and> amount p = unpaid_balance miner \<and> min_payout (config s) \<le> amount p
     \<and> sint (payout_interval (config s))
          \<le> duration_cast_seconds (Payment.created_at p - last_payout miner)
     \<and> (uint (payout_interval (config s)) < 2 ^ 63 \<longrightarrow>
          uint (payout_interval (config s))
            \<le> duration_cast_seconds (Payment.created_at p - last_payout miner))
     \<and> last_payout miner' = Payment.created_at p \<and> unpaid_balance miner' = 0
     \<and> (distinct (map fst (miners s)) \<longrightarrow>
          map_of (miners s) mid = Some miner \<and> map_of (miners s') mid = Some miner'))"
proof
  assume a: "(ProcessPayouts_pool_cpp now s = (new_payments, s')
      \<or> ProcessPayouts_mining_pool_server_cpp now s = (new_payments, s'))
    \<and> p \<in> set new_payments"
  then obtain settle where run: "ProcessPayouts_with settle now s = (new_payments, s')"
    and settle: "settle = settle_pool_cpp \<or> settle = settle_mining_pool_server_cpp"
    unfolding ProcessPayouts_pool_cpp_def ProcessPayouts_mining_pool_server_cpp_def by blast
  from a have p: "p \<in> set new_payments" by simp
  show "payment_history s' = payment_history s @ new_payments
   \<and> (\<exists>mid miner miner'. (mid, miner) \<in> set (miners s) \<and> (mid, miner') \<in> set (miners s')
     \<and> Payment.miner_id p = mid \<and> Payment.created_at p = now \<and> status p = ''pending''
     \<and> amount p = unpaid_balance miner \<and> min_payout (config s) \<le> amount p
     \<and> sint (payout_interval (config s))
          \<le> duration_cast_seconds (Payment.created_at p - last_payout miner)
     \<and> (uint (payout_interval (config s)) < 2 ^ 63 \<longrightarrow>
          uint (payout_interval (config s))
            \<le> duration_cast_seconds (Payment.created_at p - last_payout miner))
     \<and> last_payout miner' = Payment.created_at p \<and> unpaid_balance miner' = 0
     \<and> (distinct (map fst (miners s)) \<longrightarrow>
          map_of (miners s) mid = Some miner \<and> map_of (miners s') mid = Some miner'))"
    using ProcessPayouts_with_history [OF run] ProcessPayouts_with_payment [OF run settle p]
    by blast
qed

lemma sweep_at_7200:
  "ProcessPayouts_pool_cpp (7200 * ticks_per_second) (pool_with 3600 (miner_with 150 0))
    = ([new_payment 1 1 (miner_with 150 0) (7200 * ticks_per_second)],
       (pool_with 3600 (miner_with 150 0))
         \<lparr>miners := [(1, settle_pool_cpp (miner_with 150 0) (7200 * ticks_per_second))],
          payment_history := [new_payment 1 1 (miner_with 150 0) (7200 * ticks_per_second)],
          next_payment_id := 2\<rparr>)"
  by code_simp

text \<open>
  The theorem at a miner with 150 unpaid, two hours after the epoch, interval one hour:
  the miner is paid, and is recorded with the time of the sweep as its last payout.
\<close>

theorem ProcessPayouts_thresholds_witness:
  "\<exists>miner miner'.
     map_of (miners (pool_with 3600 (miner_with 150 0))) 1 = Some miner
     \<and> map_of
          (miners (snd (ProcessPayouts_pool_cpp (7200 * ticks_per_second)
                          (pool_with 3600 (miner_with 150 0))))) 1 = Some miner'
     \<and> amount (new_payment 1 1 (miner_with 150 0) (7200 * ticks_per_second)) = unpaid_balance miner
     \<and> min_payout (config (pool_with 3600 (miner_with 150 0)))
          \<le> amount (new_payment 1 1 (miner_with 150 0) (7200 * ticks_per_second))
     \<and> uint (payout_interval (config (pool_with 3600 (miner_with 150 0))))
          \<le> duration_cast_seconds (7200 * ticks_per_second - last_payout miner)
     \<and> last_payout miner' = 7200 * ticks_per_second \<and> unpaid_balance miner' = 0"
proof -
  have small: "uint (payout_interval (config (pool_with 3600 (miner_with 150 0)))) < 2 ^ 63"
    by (simp add: pool_with_def)
  have keys: "distinct (map fst (miners (pool_with 3600 (miner_with 150 0))))"
    by (simp add: pool_with_def)
  have p: "Payment.miner_id (new_payment 1 1 (miner_with 150 0) (7200 * ticks_per_second)) = 1"
    "Payment.created_at (new_payment 1 1 (miner_with 150 0) (7200 * ticks_per_second))
       = 7200 * ticks_per_second"
    by (simp_all add: new_payment_def)
  from ProcessPayouts_thresholds
      [of "7200 * ticks_per_second" "pool_with 3600 (miner_with 150 0)"
          "[new_payment 1 1 (miner_with 150 0) (7200 * ticks_per_second)]"
          "(pool_with 3600 (miner_with 150 0))
         \<lparr>miners := [(1, settle_pool_cpp (miner_with 150 0) (7200 * ticks_per_second))],
          payment_history := [new_payment 1 1 (miner_with 150 0) (7200 * ticks_per_second)],
          next_payment_id := 2\<rparr>"
          "new_payment 1 1 (miner_with 150 0) (7200 * ticks_per_second)"]
    sweep_at_7200 small keys p
  show ?thesis
    by (simp add: sweep_at_7200) blast
qed

text \<open>
  Two sweeps in a row, over miners with distinct ids and an interval below \<open>2 ^ 63\<close>:
  two payments to the same miner are at least the interval apart.
\<close>

lemma ProcessPayouts_twice:
  assumes first: "ProcessPayouts_with settle1 now1 s = (ps1, s1)"
    and second: "ProcessPayouts_with settle2 now2 s1 = (ps2, s2)"
    and settle1: "settle1 = settle_pool_cpp \<or> settle1 = settle_mining_pool_server_cpp"
    and settle2: "settle2 = settle_pool_cpp \<or> settle2 = settle_mining_pool_server_cpp"
    and p1: "p1 \<in> set ps1" and p2: "p2 \<in> set ps2"
    and same: "Payment.miner_id p2 = Payment.miner_id p1"
    and keys: "distinct (map fst (miners s))"
    and small: "uint (payout_interval (config s)) < 2 ^ 63"
  shows "uint (payout_interval (config s))
           \<le> duration_cast_seconds (Payment.created_at p2 - Payment.created_at p1)"
proof -
  from ProcessPayouts_with_payment [OF first settle1 p1] keys
  obtain m1' where a: "map_of (miners s1) (Payment.miner_id p1) = Some m1'"
    "last_payout m1' = Payment.created_at p1"
    by blast
  have keys1: "distinct (map fst (miners s1))"
  proof -
    obtain ms pid where
      "payout_sweep settle1 (config s) now1 (miners s) (next_payment_id s) = (ms, ps1, pid)"
      and "miners s1 = ms"
      using first by (auto simp: ProcessPayouts_with_def split: prod.splits)
    then show ?thesis using payout_sweep_keys keys by metis
  qed
  have cfg: "config s1 = config s" using ProcessPayouts_with_history [OF first] by simp
  from ProcessPayouts_with_payment [OF second settle2 p2] keys1 small cfg
  obtain m2 where b: "map_of (miners s1) (Payment.miner_id p2) = Some m2"
    "uint (payout_interval (config s))
       \<le> duration_cast_seconds (Payment.created_at p2 - last_payout m2)"
    by auto
  from a b same show ?thesis by simp
qed

text \<open>
  With \<open>payout_interval = 2 ^ 63\<close> the cast is negative: a miner paid at this very instant,
  0 seconds ago, is paid again.
\<close>

theorem ProcessPayouts_interval_counterexample:
  "fst (ProcessPayouts_pool_cpp (7200 * ticks_per_second)
         (pool_with 9223372036854775808 (miner_with 150 (7200 * ticks_per_second))))
     = [new_payment 1 1 (miner_with 150 (7200 * ticks_per_second)) (7200 * ticks_per_second)]
   \<and> fst (ProcessPayouts_mining_pool_server_cpp (7200 * ticks_per_second)
         (pool_with 9223372036854775808 (miner_with 150 (7200 * ticks_per_second))))
     = [new_payment 1 1 (miner_with 150 (7200 * ticks_per_second)) (7200 * ticks_per_second)]
   \<and> duration_cast_seconds
        (Payment.created_at
           (new_payment 1 1 (miner_with 150 (7200 * ticks_per_second)) (7200 * ticks_per_second))
         - last_payout (miner_with 150 (7200 * ticks_per_second))) = 0
   \<and> uint (payout_interval
        (config (pool_with 9223372036854775808 (miner_with 150 (7200 * ticks_per_second)))))
      = 9223372036854775808"
  by code_simp

text \<open>
  C3. The claim: \<open>paid_balance\<close> is the sum of the confirmed payments, and creating a
  pending payment does not change it. In \<open>mining_pool_server.cpp\<close> the sweep that creates
  the pending payment of 150 raises \<open>paid_balance\<close> from 0 to 150 while the confirmed
  payments sum to 0. In \<open>pool.cpp\<close> the same sweep leaves \<open>paid_balance\<close> at 0.
\<close>

theorem paid_balance_counts_pending_payment:
  "(case ProcessPayouts_mining_pool_server_cpp (7200 * ticks_per_second)
           (pool_with 3600 (miner_with 150 0)) of
      (new_payments, s') \<Rightarrow>
        map status new_payments = [''pending'']
        \<and> map (\<lambda>p. uint (amount p)) new_payments = [150]
        \<and> map (\<lambda>(mid, m). (mid, uint (paid_balance m))) (miners s') = [(1, 150)]
        \<and> confirmed_total (payment_history s') 1 = 0)
   \<and> map (\<lambda>(mid, m). (mid, uint (paid_balance m))) (miners (pool_with 3600 (miner_with 150 0)))
       = [(1, 0)]
   \<and> (case ProcessPayouts_pool_cpp (7200 * ticks_per_second)
           (pool_with 3600 (miner_with 150 0)) of
      (new_payments, s') \<Rightarrow>
        map status new_payments = [''pending'']
        \<and> map (\<lambda>(mid, m). (mid, uint (paid_balance m))) (miners s') = [(1, 0)]
        \<and> confirmed_total (payment_history s') 1 = 0)"
  by code_simp

text \<open>
  The sweep of \<open>pool.cpp\<close> changes neither a \<open>paid_balance\<close> nor the sum of the confirmed
  payments of any miner.
\<close>

lemma settle_pool_cpp_paid_balance [simp]:
  "paid_balance (settle_pool_cpp miner now) = paid_balance miner"
  by (simp add: settle_pool_cpp_def)

lemma new_payment_status [simp]: "status (new_payment pid mid miner now) = ''pending''"
  by (simp add: new_payment_def)

lemma payout_sweep_pool_cpp_paid_balance:
  "payout_sweep settle_pool_cpp cfg now ms pid = (ms', ps, pid') \<Longrightarrow>
   map (\<lambda>(mid, m). (mid, paid_balance m)) ms' = map (\<lambda>(mid, m). (mid, paid_balance m)) ms
   \<and> (\<forall>p \<in> set ps. status p = ''pending'')"
proof (induction ms arbitrary: pid ms' ps pid')
  case Nil
  then show ?case by simp
next
  case (Cons a ms)
  obtain mid miner where a: "a = (mid, miner)" by (cases a)
  obtain r1 r2 r3 where r: "payout_sweep settle_pool_cpp cfg now ms pid = (r1, r2, r3)"
    by (cases "payout_sweep settle_pool_cpp cfg now ms pid")
  obtain q1 q2 q3 where q: "payout_sweep settle_pool_cpp cfg now ms (pid + 1) = (q1, q2, q3)"
    by (cases "payout_sweep settle_pool_cpp cfg now ms (pid + 1)")
  show ?case
  proof (cases "unpaid_balance miner < min_payout cfg
      \<or> duration_cast_seconds (now - last_payout miner) < sint (payout_interval cfg)")
    case True
    then have "ms' = (mid, miner) # r1" "ps = r2"
      using Cons.prems r unfolding a by (auto split: if_splits)
    then show ?thesis using Cons.IH [OF r] unfolding a by simp
  next
    case False
    then have "ms' = (mid, settle_pool_cpp miner now) # q1"
      "ps = new_payment pid mid miner now # q2"
      using Cons.prems q unfolding a by (auto split: if_splits)
    then show ?thesis using Cons.IH [OF q] unfolding a by simp
  qed
qed

lemma ProcessPayouts_pool_cpp_keeps_invariant:
  assumes "ProcessPayouts_pool_cpp now s = (new_payments, s')"
  shows "map (\<lambda>(mid, m). (mid, paid_balance m)) (miners s')
           = map (\<lambda>(mid, m). (mid, paid_balance m)) (miners s)"
    and "confirmed_total (payment_history s') m = confirmed_total (payment_history s) m"
proof -
  obtain ms pid where sw:
    "payout_sweep settle_pool_cpp (config s) now (miners s) (next_payment_id s)
       = (ms, new_payments, pid)"
    and s': "s' = s\<lparr>miners := ms, payment_history := payment_history s @ new_payments,
             next_payment_id := pid\<rparr>"
    using assms
    by (auto simp: ProcessPayouts_pool_cpp_def ProcessPayouts_with_def split: prod.splits)
  from payout_sweep_pool_cpp_paid_balance [OF sw]
  have pb: "map (\<lambda>(mid, m). (mid, paid_balance m)) ms
        = map (\<lambda>(mid, m). (mid, paid_balance m)) (miners s)"
    and pend: "\<forall>p \<in> set new_payments. status p = ''pending''" by simp_all
  show "map (\<lambda>(mid, m). (mid, paid_balance m)) (miners s')
           = map (\<lambda>(mid, m). (mid, paid_balance m)) (miners s)"
    using pb by (simp add: s')
  have "filter (\<lambda>p. status p = ''confirmed'' \<and> Payment.miner_id p = m) new_payments = []"
    using pend by (auto simp: filter_empty_conv)
  then show "confirmed_total (payment_history s') m = confirmed_total (payment_history s) m"
    by (simp add: s' confirmed_total_def)
qed

section \<open>Share processing: results\<close>

text \<open>
  C2. A share that share processing marks with \<open>is_block = true\<close> can have a hash above
  the network target. \<open>ValidateShare\<close> of \<open>mining_pool_server.cpp\<close> marks the share
  whose hash is all \<open>0xFF\<close> bytes at network difficulty 1, and the share with hash
  \<open>2 ^ 223\<close> at network difficulty 65536, because \<open>IsValidBlock\<close> of \<open>pool.cpp\<close> holds for
  them; both hashes exceed the target of that difficulty.
\<close>

theorem ValidateShare_marks_block_above_target:
  "ValidateShare_mining_pool_server_cpp (Some (work_1\<lparr>Work.difficulty := 1\<rparr>))
       (submitted_share 1 hash_max)
     = (Ok True, (submitted_share 1 hash_max)\<lparr>is_block := True\<rparr>)
   \<and> IsValidBlock hash_max 1
   \<and> network_target 1 < uint256_value hash_max
   \<and> ValidateShare_mining_pool_server_cpp (Some (work_1\<lparr>Work.difficulty := 65536\<rparr>))
       (submitted_share 1024 hash_2_223)
     = (Ok True, (submitted_share 1024 hash_2_223)\<lparr>is_block := True\<rparr>)
   \<and> IsValidBlock hash_2_223 65536
   \<and> network_target 65536 < uint256_value hash_2_223"
  by code_simp





section \<open>Calls under the pool mutex: results\<close>

lemma ValidateShare_Ok: "ValidateShare s share = Ok v \<Longrightarrow> v"
  by (auto simp: ValidateShare_def split: option.splits if_splits)

lemma touch_worker_to_miner_frame:
  "miners (touch_worker_to_miner wid s) = miners s"
  "config (touch_worker_to_miner wid s) = config s"
  "pool_workers (touch_worker_to_miner wid s) = pool_workers s"
  "current_round (touch_worker_to_miner wid s) = current_round s"
  "pool_recent_shares (touch_worker_to_miner wid s) = pool_recent_shares s"
  "current_work (touch_worker_to_miner wid s) = current_work s"
  "next_share_id (touch_worker_to_miner wid s) = next_share_id s"
  "map_of (worker_to_miner (touch_worker_to_miner wid s)) wid \<noteq> None"
  "stats (touch_worker_to_miner wid s) = stats s"
  by (simp_all add: touch_worker_to_miner_def map_of_map_put split: option.splits)

text \<open>
  Every share that \<open>ValidateShare\<close> accepts: \<open>SubmitShare\<close> never returns. The thread
  blocks in \<open>GetMinerShares\<close>, after the counters of the worker and before those of the
  miner, which are left as they were.
\<close>

lemma SubmitShare_accepted_blocks:
  assumes worker: "map_of (pool_workers s) wid = Some worker"
    and miner: "map_of (miners s) (miner_of_worker s wid) = Some miner"
    and ok: "ValidateShare
               ((touch_worker_to_miner wid s)
                  \<lparr>next_share_id := next_share_id (touch_worker_to_miner wid s) + 1\<rparr>)
               (new_share env s wid worker jid nonce_arg hash) = Ok v"
  shows "stopped (SubmitShare env wid jid nonce_arg hash s) = Some Blocked"
    and "miners (state_left (SubmitShare env wid jid nonce_arg hash s)) = miners s"
    and "pool_recent_shares (state_left (SubmitShare env wid jid nonce_arg hash s))
           = pool_recent_shares s"
proof -
  define s1 where "s1 = (touch_worker_to_miner wid s)
                  \<lparr>next_share_id := next_share_id (touch_worker_to_miner wid s) + 1\<rparr>"
  define share where "share = (new_share env s wid worker jid nonce_arg hash)\<lparr>valid := True\<rparr>"
  have v: "v" using ok by (rule ValidateShare_Ok)
  obtain mid where mid: "map_of (worker_to_miner s1) wid = Some mid"
    using touch_worker_to_miner_frame(8) [of wid s] by (auto simp: s1_def)
  have w1: "map_of (pool_workers s1) (Share.worker_id share) = Some worker"
    using worker by (simp add: s1_def share_def new_share_def touch_worker_to_miner_frame)
  define s2 where "s2 = s1\<lparr>pool_workers :=
      map_put (Share.worker_id share) (credit_worker share worker) (pool_workers s1)\<rparr>"
  have pv: "ProcessValidShare {mutex} env share s1 = Stops Blocked s2"
    using w1 mid
    by (simp add: ProcessValidShare_def CalculateWorkerHashrate_def GetMinerShares_def
        lock_guard_def and_then_def s2_def share_def new_share_def)
  have pv': "ProcessValidShare {mutex} env
       ((new_share env s wid worker jid nonce_arg hash)\<lparr>valid := True\<rparr>)
       ((touch_worker_to_miner wid s)\<lparr>next_share_id := next_share_id s + 1\<rparr>)
     = Stops Blocked s2"
    using pv by (simp add: s1_def share_def touch_worker_to_miner_frame)
  have sub: "SubmitShare env wid jid nonce_arg hash s = Stops Blocked s2"
    using worker miner ok v
    by (simp add: SubmitShare_def Let_def touch_worker_to_miner_frame pv' and_then_def)
  show "stopped (SubmitShare env wid jid nonce_arg hash s) = Some Blocked"
    by (simp add: sub stopped_def)
  show "miners (state_left (SubmitShare env wid jid nonce_arg hash s)) = miners s"
    by (simp add: sub state_left_def s2_def s1_def touch_worker_to_miner_frame)
  show "pool_recent_shares (state_left (SubmitShare env wid jid nonce_arg hash s))
           = pool_recent_shares s"
    by (simp add: sub state_left_def s2_def s1_def touch_worker_to_miner_frame)
qed

text \<open>
  C10. The claim: an accepted share resets the invalid share count of its miner, so that
  only consecutive rejections lead to the automatic ban. Worker 1 of miner 1, at
  difficulty 2, has a share rejected, which raises the invalid share count of miner 1 to
  1, and then submits a share that \<open>ValidateShare\<close> accepts: \<open>SubmitShare\<close> does not
  return, and the invalid share count is still 1 in the state it leaves, in which worker 1
  has been credited with the share.
\<close>

theorem SubmitShare_blocks_before_reset:
  "returned (SubmitShare (env_at 1 1000) 1 job_1 nonce_7 hash_max (mining_pool 2 []))
     = Some (Error ''Share rejected: Share does not meet difficulty requirement'')
   \<and> invalid_count once_rejected 1 = 1
   \<and> map_option
        (\<lambda>worker.
           ValidateShare (once_rejected\<lparr>next_share_id := next_share_id once_rejected + 1\<rparr>)
             (new_share (env_at 2 1000) once_rejected 1 worker job_1 nonce_7 zero_hash))
        (map_of (pool_workers once_rejected) 1)
       = Some (Ok True)
   \<and> stopped (SubmitShare (env_at 2 1000) 1 job_1 nonce_7 zero_hash once_rejected)
       = Some Blocked
   \<and> invalid_count
        (state_left (SubmitShare (env_at 2 1000) 1 job_1 nonce_7 zero_hash once_rejected)) 1
       = 1
   \<and> worker_credit
        (state_left (SubmitShare (env_at 2 1000) 1 job_1 nonce_7 zero_hash once_rejected)) 1
       = Some (1, 1)
   \<and> miner_credit
        (state_left (SubmitShare (env_at 2 1000) 1 job_1 nonce_7 zero_hash once_rejected)) 1
       = Some (0, 0)"
  by code_simp

text \<open>
  The automatic ban itself: in the pool that bans after 2 invalid shares, the second
  rejected share reaches \<open>BanMiner\<close>, which locks the mutex that \<open>SubmitShare\<close> holds.
  \<open>SubmitShare\<close> does not return and the miner is not marked as banned.
\<close>

lemma automatic_ban_blocks:
  "invalid_count strict_once_rejected 1 = 1"
  "stopped (SubmitShare (env_at 2 1000) 1 job_1 nonce_7 hash_max strict_once_rejected)
     = Some Blocked"
  "invalid_count
     (state_left (SubmitShare (env_at 2 1000) 1 job_1 nonce_7 hash_max strict_once_rejected)) 1
     = 2"
  "ban_state
     (state_left (SubmitShare (env_at 2 1000) 1 job_1 nonce_7 hash_max strict_once_rejected)) 1
     = Some (False, 0)"
  by code_simp+

section \<open>The Stratum reply to a submission: results\<close>








end
